theory Spec2Isabelle
  imports Complex_Main "HOL-Library.Word" "HOL-Library.Char_ord" "HOL-Library.List_Lexorder"
begin

unbundle bit_operations_syntax

section \<open>Python values and text helpers\<close>

text \<open>
  A text is a list of characters with codes 0 to 255 (Latin-1). The helpers below are the
  Python built-ins the sources call, on such texts: \<open>str.isdigit\<close>, \<open>str.strip\<close>,
  \<open>str.rjust\<close>, \<open>str.ljust\<close>, \<open>str(int)\<close> and \<open>int(str)\<close>.
\<close>

type_synonym byte = "8 word"

text \<open>The decimal digits \<open>0\<close> to \<open>9\<close>: the characters \<open>\d\<close> matches and \<open>int\<close> and \<open>Decimal\<close>
  read.\<close>

definition is_digit :: "char \<Rightarrow> bool" where
  "is_digit c = ((48::nat) \<le> of_char c \<and> (of_char c :: nat) \<le> 57)"

text \<open>The characters \<open>ch\<close> with \<open>ch.isdigit()\<close>: the decimal digits and the superscripts two,
  three and one (codes 178, 179 and 185), which \<open>int\<close> does not read.\<close>

definition is_digit_py :: "char \<Rightarrow> bool" where
  "is_digit_py c = (is_digit c \<or> (of_char c :: nat) = 178 \<or> (of_char c :: nat) = 179
                    \<or> (of_char c :: nat) = 185)"

text \<open>\<open>s.isdigit()\<close>: every character is a digit in that sense and there is at least one.\<close>

definition isdigit :: "string \<Rightarrow> bool" where
  "isdigit s = (s \<noteq> [] \<and> list_all is_digit_py s)"

text \<open>\<open>re.sub(r"\D", "", s)\<close>.\<close>

definition only_digits :: "string \<Rightarrow> string" where
  "only_digits s = filter is_digit s"

text \<open>\<open>"".join(ch for ch in s if ch.isdigit())\<close>.\<close>

definition join_isdigit :: "string \<Rightarrow> string" where
  "join_isdigit s = filter is_digit_py s"

text \<open>The characters \<open>str.strip()\<close> removes: codes 9 to 13, 28 to 32, 133 and 160.\<close>

definition is_space :: "char \<Rightarrow> bool" where
  "is_space c =
     (let n = (of_char c :: nat)
      in (9 \<le> n \<and> n \<le> 13) \<or> (28 \<le> n \<and> n \<le> 32) \<or> n = 133 \<or> n = 160)"

definition strip :: "string \<Rightarrow> string" where
  "strip s = rev (dropWhile is_space (rev (dropWhile is_space s)))"

definition rjust :: "nat \<Rightarrow> char \<Rightarrow> string \<Rightarrow> string" where
  "rjust w c s = replicate (w - length s) c @ s"

definition ljust :: "nat \<Rightarrow> char \<Rightarrow> string \<Rightarrow> string" where
  "ljust w c s = s @ replicate (w - length s) c"

text \<open>\<open>s[-n:]\<close> for \<open>n > 0\<close>: the last \<open>n\<close> characters (all of them when there are fewer).
  For \<open>n = 0\<close> Python's \<open>s[-0:]\<close> is the whole text.\<close>

definition last_n :: "nat \<Rightarrow> string \<Rightarrow> string" where
  "last_n n s = (if n = 0 then s else drop (length s - n) s)"

definition digit_char :: "nat \<Rightarrow> char" where
  "digit_char d = char_of (48 + d)"

fun str_nat :: "nat \<Rightarrow> string" where
  "str_nat n = (if n < 10 then [digit_char n] else str_nat (n div 10) @ [digit_char (n mod 10)])"

declare str_nat.simps [simp del]

definition str_int :: "int \<Rightarrow> string" where
  "str_int i = (if i < 0 then CHR ''-'' # str_nat (nat (- i)) else str_nat (nat i))"

definition digit_val :: "char \<Rightarrow> nat" where
  "digit_val c = of_char c - 48"

definition nat_of_digits :: "string \<Rightarrow> nat" where
  "nat_of_digits s = foldl (\<lambda>acc c. 10 * acc + digit_val c) 0 s"

text \<open>
  A value held in a row or passed to a helper: \<open>None\<close>, a text or an integer. A float or
  \<open>Decimal\<close> column value is carried by its textual form \<open>str(v)\<close>.
\<close>

datatype pyval = PNone | PStr string | PInt int

text \<open>The exceptions the modelled code can raise. \<open>DecimalOverflow\<close> is \<open>decimal.Overflow\<close>,
  which is neither an \<open>InvalidOperation\<close> nor a \<open>ValueError\<close>.\<close>

datatype exn = ValueError | TypeError | IndexError | OverflowError | InvalidOperation | DecimalOverflow

text \<open>
  CPython converts between integers and decimal texts up to 4300 digits
  (\<open>sys.int_info.default_max_str_digits\<close>): \<open>str\<close> of an integer with more digits and \<open>int\<close>
  of a text with more digits raise \<open>ValueError\<close>. \<open>str_raises v\<close> tells that \<open>str(v)\<close> raises.
\<close>

definition MAX_STR_DIGITS :: nat where "MAX_STR_DIGITS = 4300"

definition str_raises :: "pyval \<Rightarrow> bool" where
  "str_raises v = (case v of PInt i \<Rightarrow> MAX_STR_DIGITS < length (str_nat (nat \<bar>i\<bar>)) | _ \<Rightarrow> False)"

text \<open>\<open>str(v)\<close>, for a value on which it does not raise.\<close>

fun py_str :: "pyval \<Rightarrow> string" where
  "py_str PNone = ''None''"
| "py_str (PStr s) = s"
| "py_str (PInt i) = str_int i"

text \<open>Truthiness, as used by \<open>v or ""\<close>.\<close>

fun truthy :: "pyval \<Rightarrow> bool" where
  "truthy PNone = False"
| "truthy (PStr s) = (s \<noteq> [])"
| "truthy (PInt i) = (i \<noteq> 0)"

text \<open>\<open>str(v or "")\<close>.\<close>

definition str_or_empty :: "pyval \<Rightarrow> string" where
  "str_or_empty v = (if truthy v then py_str v else [])"

section \<open>Checksum (Scale Communication Service and Direct-TCP client)\<close>

definition STX :: byte where "STX = 0x02"
definition ETX :: byte where "ETX = 0x04"
definition RESP_STX :: byte where "RESP_STX = 0x07"

text \<open>\<open>sum(payload)\<close>: the bytes added as unbounded integers.\<close>

definition sum_bytes :: "byte list \<Rightarrow> int" where
  "sum_bytes payload = sum_list (map uint payload)"

text \<open>\<open>envios_balanzas._checksum_bytes\<close>; the first pair \<open>lo\<close>, \<open>hi\<close> is overwritten
  before use, as in the source.\<close>

definition checksum_bytes_envios :: "byte list \<Rightarrow> byte list" where
  "checksum_bytes_envios payload =
     (let total = sum_bytes payload;
          lo = total AND 0x0F;
          hi = (drop_bit 4 total) AND 0x0F;
          b = total AND 0xFF;
          hi = (drop_bit 4 b) AND 0x0F;
          lo = b AND 0x0F
      in [word_of_int (hi + 0x30), word_of_int (lo + 0x30)])"

text \<open>\<open>kretz_driver._checksum_bytes\<close>.\<close>

definition checksum_bytes_driver :: "byte list \<Rightarrow> byte list" where
  "checksum_bytes_driver payload =
     (let total = sum_bytes payload;
          b = total AND 0xFF;
          hi = (drop_bit 4 b) AND 0x0F;
          lo = b AND 0x0F
      in [word_of_int (hi + 0x30), word_of_int (lo + 0x30)])"

section \<open>Numeric padding (Scale Communication Service and Protocol Adapter)\<close>

text \<open>\<open>envios_balanzas.pad_num(valor, width)\<close>: \<open>s.rjust(width, "0")[:width]\<close> on the
  characters of \<open>str(valor if valor is not None else "")\<close> that \<open>isdigit\<close> accepts;
  \<open>ValueError\<close> when \<open>str\<close> raises.\<close>

definition pad_num :: "pyval \<Rightarrow> nat \<Rightarrow> exn + string" where
  "pad_num valor width =
     (if str_raises valor then Inl ValueError
      else let s = (case valor of PNone \<Rightarrow> [] | _ \<Rightarrow> py_str valor);
               s = join_isdigit s
           in Inr (take width (rjust width (CHR ''0'') s)))"

text \<open>\<open>kretz_adapter._pad_num(value, length)\<close> from the text \<open>str(value or "")\<close> on.\<close>

definition pad_num_text :: "string \<Rightarrow> nat \<Rightarrow> string" where
  "pad_num_text s0 len =
     (let s = strip s0;
          s = (if \<not> isdigit s then ''0'' else s)
      in rjust len (CHR ''0'') (last_n len s))"

text \<open>\<open>kretz_adapter._pad_num(value, length)\<close>; \<open>ValueError\<close> when \<open>str\<close> raises.\<close>

definition pad_num_adapter :: "pyval \<Rightarrow> nat \<Rightarrow> exn + string" where
  "pad_num_adapter value len =
     (if str_raises value then Inl ValueError
      else Inr (pad_num_text (str_or_empty value) len))"

text \<open>The padding rule in the words of the specification: strip every non-digit, keep
  the rightmost \<open>width\<close> digits, left-pad with \<open>'0'\<close> to \<open>width\<close>.\<close>

definition pad_number_spec :: "string \<Rightarrow> nat \<Rightarrow> string" where
  "pad_number_spec text width =
     (let d = only_digits text;
          kept = drop (length d - width) d
      in replicate (width - length kept) (CHR ''0'') @ kept)"

text \<open>\<open>kretz_adapter._pad_txt(value, length)\<close>; a \<open>None\<close> value is passed as the empty
  text (\<open>value or ""\<close>).\<close>

definition pad_txt :: "string \<Rightarrow> nat \<Rightarrow> string" where
  "pad_txt value len = ljust len (CHR '' '') (take len value)"

text \<open>\<open>_pad_num_w(n, w)\<close> and \<open>_pad_txt_w(s, w)\<close>.\<close>

definition pad_num_w :: "int \<Rightarrow> nat \<Rightarrow> string" where
  "pad_num_w n w = (if w > 0 then rjust w (CHR ''0'') (str_int n) else [])"

definition pad_txt_w :: "string \<Rightarrow> nat \<Rightarrow> string" where
  "pad_txt_w s w = (if w > 0 then ljust w (CHR '' '') (take w s) else [])"


section \<open>Article rows and PLU derivation\<close>

text \<open>
  A row is a Python \<open>dict\<close> from column names to values, kept as an association list in
  iteration order. \<open>_ci(d, *names)\<close> builds \<open>ln = {k.lower(): k for k in d.keys()}\<close> (a later
  key overwrites an earlier one with the same lower-case form) and returns \<open>d[k]\<close> for the
  first name found; \<open>None\<close> when no name matches.
\<close>

type_synonym row = "(string \<times> pyval) list"

text \<open>\<open>str.lower\<close>: the letters \<open>A\<close> to \<open>Z\<close> and the Latin-1 capitals (codes 192 to 222 but
  215) move up by 32.\<close>

definition lower_char :: "char \<Rightarrow> char" where
  "lower_char c =
     (let n = (of_char c :: nat)
      in if (65 \<le> n \<and> n \<le> 90) \<or> (192 \<le> n \<and> n \<le> 222 \<and> n \<noteq> 215) then char_of (n + 32) else c)"

definition lower :: "string \<Rightarrow> string" where
  "lower s = map lower_char s"

text \<open>\<open>str.upper\<close>: the letters \<open>a\<close> to \<open>z\<close> and the Latin-1 small letters (codes 224 to 254
  but 247) move down by 32 and the sharp s (code 223) becomes \<open>SS\<close>. The capitals of the
  micro sign and of y with diaeresis (codes 181 and 255) lie outside Latin-1: the model
  keeps these two characters, which like their capitals occur in no text that \<open>upper\<close> is
  compared with.\<close>

definition upper_char :: "char \<Rightarrow> string" where
  "upper_char c =
     (let n = (of_char c :: nat)
      in if (97 \<le> n \<and> n \<le> 122) \<or> (224 \<le> n \<and> n \<le> 254 \<and> n \<noteq> 247) then [char_of (n - 32)]
         else if n = 223 then ''SS''
         else [c])"

definition upper :: "string \<Rightarrow> string" where
  "upper s = concat (map upper_char s)"

fun ci :: "row \<Rightarrow> string list \<Rightarrow> pyval" where
  "ci d [] = PNone"
| "ci d (n # ns) =
     (case filter (\<lambda>kv. lower (fst kv) = lower n) d of
        [] \<Rightarrow> ci d ns
      | m # ms \<Rightarrow> snd (last (m # ms)))"

declare ci.simps [simp del]

text \<open>\<open>ArticulosBalanzaDAO._only_digits\<close> and \<open>kretz_adapter._digits\<close>:
  \<open>re.sub(r"\D", "", str(s or ""))\<close>.\<close>

definition digits_of :: "pyval \<Rightarrow> string" where
  "digits_of s = only_digits (str_or_empty s)"


text \<open>The row enrichment of \<open>listar_para_deptos\<close>: the values stored under \<open>PLU4\<close> and
  \<open>PLU6\<close>; \<open>r.get("CREF")\<close> is a case-sensitive lookup.\<close>

definition dict_get :: "row \<Rightarrow> string \<Rightarrow> pyval" where
  "dict_get r k = (case map_of r k of None \<Rightarrow> PNone | Some v \<Rightarrow> v)"



text \<open>\<open>str.zfill\<close>: zeros go after a leading sign.\<close>

definition zfill :: "nat \<Rightarrow> string \<Rightarrow> string" where
  "zfill w s =
     (case s of
        [] \<Rightarrow> replicate w (CHR ''0'')
      | c # r \<Rightarrow> if c = CHR ''+'' \<or> c = CHR ''-''
                 then c # replicate (w - length s) (CHR ''0'') @ r
                 else rjust w (CHR ''0'') s)"

text \<open>\<open>kretz_adapter._coerce_plu6(it)\<close>; \<open>re.match(r"^\d{2}(\d{4})", ccb)\<close> succeeds when the
  first six characters of \<open>ccb\<close> are digits, and group 1 is the characters 2..6.\<close>

definition coerce_plu6 :: "row \<Rightarrow> string option" where
  "coerce_plu6 it =
     (let cref = strip (str_or_empty (ci it [''CREF'']));
          ccb = strip (str_or_empty (ci it [''CCODEBAR'']));
          base4 = (if length cref = 4 \<and> isdigit cref then Some cref
                   else if length ccb \<ge> 6 \<and> list_all is_digit (take 6 ccb)
                        then Some (take 4 (drop 2 ccb))
                        else None)
      in case base4 of
           None \<Rightarrow> None
         | Some b \<Rightarrow> if b = [] then None else Some (zfill 6 b))"

text \<open>\<open>kretz_adapter._coerce_dep3(item)\<close>; \<open>n\<close> has at most three digits, so \<open>str\<close> in
  \<open>_pad_num(n, 3)\<close> does not raise.\<close>

definition coerce_dep3 :: "row \<Rightarrow> string option" where
  "coerce_dep3 item =
     (let s = digits_of (ci item [''CGRPCONTA'', ''depto'', ''cod_depto'']) in
      if s = [] then None
      else let n = int (nat_of_digits (last_n 3 s)) in
        if n \<le> 0 then None
        else Some (pad_num_text (str_or_empty (PInt n)) 3))"

text \<open>\<open>kretz_adapter._tipo_from_cvencom(v)\<close>.\<close>

definition tipo_from_cvencom :: "pyval \<Rightarrow> string" where
  "tipo_from_cvencom v =
     (let s = upper (strip (str_or_empty v)) in
      if s \<in> set [''U'', ''UNI'', ''UN'', ''UNIDAD'', ''N'', ''NO''] then ''N'' else ''P'')"

section \<open>Exceptions and number parsing\<close>

text \<open>\<open>int(s)\<close> for a text: surrounding blanks, an optional sign, then digits, where single
  underscores may separate digits; \<open>None\<close> is the \<open>ValueError\<close>, raised also for more than
  4300 digits. The blanks \<open>int\<close> skips are those of \<open>str.strip\<close> but the codes 28 to 31.\<close>

definition is_space_int :: "char \<Rightarrow> bool" where
  "is_space_int c =
     (let n = (of_char c :: nat) in (9 \<le> n \<and> n \<le> 13) \<or> n = 32 \<or> n = 133 \<or> n = 160)"

definition strip_int :: "string \<Rightarrow> string" where
  "strip_int s = rev (dropWhile is_space_int (rev (dropWhile is_space_int s)))"

fun digits_us :: "string \<Rightarrow> bool" where
  "digits_us [] = True"
| "digits_us (c # cs) =
     (if is_digit c then digits_us cs
      else if c = CHR ''_'' then (case cs of [] \<Rightarrow> False | d # ds \<Rightarrow> is_digit d \<and> digits_us ds)
      else False)"

definition int_literal :: "string \<Rightarrow> bool" where
  "int_literal s = (case s of [] \<Rightarrow> False | c # cs \<Rightarrow> is_digit c \<and> digits_us cs)"

definition split_sign :: "string \<Rightarrow> bool \<times> string" where
  "split_sign s =
     (case s of
        [] \<Rightarrow> (False, [])
      | c # r \<Rightarrow> if c = CHR ''-'' then (True, r) else if c = CHR ''+'' then (False, r) else (False, s))"

definition py_int :: "string \<Rightarrow> int option" where
  "py_int s0 =
     (let (neg, r) = split_sign (strip_int s0) in
      if int_literal r \<and> length (only_digits r) \<le> MAX_STR_DIGITS
      then Some (if neg then - int (nat_of_digits (only_digits r)) else int (nat_of_digits (only_digits r)))
      else None)"

text \<open>
  \<open>decimal.Decimal\<close> under the default context (precision 28, \<open>ROUND_HALF_EVEN\<close>,
  \<open>Emax = 999999\<close>, traps on \<open>InvalidOperation\<close> and \<open>Overflow\<close>). A finite decimal is a sign,
  a coefficient and an exponent. The constructor ignores underscores and accepts
  \<open>[sign] digits [. digits] [e [sign] digits]\<close> with at least one digit in the mantissa.
  It builds the number exactly and raises \<open>InvalidOperation\<close> when that cannot be done
  within the largest context: when the adjusted exponent (the exponent plus the number of
  digits of the coefficient, less one) exceeds \<open>MAX_EMAX\<close> or the exponent is below
  \<open>MIN_ETINY\<close> (64-bit build). The literals \<open>Infinity\<close> and \<open>NaN\<close> also construct, but every
  later step of \<open>int((Decimal(s) * 100).quantize(Decimal("1")))\<close> on them raises
  \<open>InvalidOperation\<close> or \<open>ValueError\<close>; \<open>parse_decimal\<close> returns \<open>None\<close> for them as for a
  text it refuses.
\<close>

datatype decimal = Decimal bool nat int

definition MAX_EMAX :: int where "MAX_EMAX = 999999999999999999"
definition MIN_ETINY :: int where "MIN_ETINY = - 1999999999999999997"

definition parse_exponent :: "string \<Rightarrow> int option" where
  "parse_exponent x =
     (let (neg, r) = split_sign x in
      if r \<noteq> [] \<and> list_all is_digit r
      then Some (if neg then - int (nat_of_digits r) else int (nat_of_digits r))
      else None)"

definition is_exp_mark :: "char \<Rightarrow> bool" where
  "is_exp_mark c = (c = CHR ''e'' \<or> c = CHR ''E'')"

definition parse_decimal :: "string \<Rightarrow> decimal option" where
  "parse_decimal s0 =
     (let s = filter (\<lambda>c. c \<noteq> CHR ''_'') (strip s0);
          (neg, r) = split_sign s;
          mant = takeWhile (\<lambda>c. \<not> is_exp_mark c) r;
          rest = dropWhile (\<lambda>c. \<not> is_exp_mark c) r;
          ip = takeWhile is_digit mant;
          after = dropWhile is_digit mant;
          fp_opt = (case after of
                      [] \<Rightarrow> Some []
                    | c # f \<Rightarrow> if c = CHR ''.'' \<and> list_all is_digit f then Some f else None);
          ex_opt = (case rest of [] \<Rightarrow> Some 0 | m # x \<Rightarrow> parse_exponent x)
      in case fp_opt of
           None \<Rightarrow> None
         | Some fp \<Rightarrow>
             (case ex_opt of
                None \<Rightarrow> None
              | Some ex \<Rightarrow>
                  if ip = [] \<and> fp = [] then None
                  else
                    let c = nat_of_digits (ip @ fp);
                        e = ex - int (length fp)
                    in if e + int (length (str_nat c)) - 1 > MAX_EMAX \<or> e < MIN_ETINY then None
                       else Some (Decimal neg c e)))"

definition PREC :: nat where "PREC = 28"
definition EMAX :: int where "EMAX = 999999"

definition ndigits :: "nat \<Rightarrow> nat" where
  "ndigits n = length (str_nat n)"

text \<open>\<open>c / 10^k\<close> rounded to the nearest integer, ties to even.\<close>

definition round_half_even :: "nat \<Rightarrow> nat \<Rightarrow> nat" where
  "round_half_even c k =
     (let q = c div 10 ^ k; r = c mod 10 ^ k in
      if 2 * r > 10 ^ k \<or> (2 * r = 10 ^ k \<and> odd q) then q + 1 else q)"

text \<open>\<open>d * 100\<close>: the exact product rounded to 28 significant digits; a non-zero result
  whose adjusted exponent exceeds \<open>Emax\<close> raises \<open>decimal.Overflow\<close>.\<close>

fun dec_mul100 :: "decimal \<Rightarrow> exn + decimal" where
  "dec_mul100 (Decimal neg c e) =
     (let c1 = c * 100;
          d = ndigits c1;
          c2 = (if d > PREC then round_half_even c1 (d - PREC) else c1);
          e2 = (if d > PREC then e + int (d - PREC) else e)
      in if c2 \<noteq> 0 \<and> e2 + int (ndigits c2) - 1 > EMAX then Inl DecimalOverflow
         else Inr (Decimal neg c2 e2))"

text \<open>\<open>int(d.quantize(Decimal("1")))\<close>: \<open>InvalidOperation\<close> when the integer part needs more
  than 28 digits, before or after rounding.\<close>

fun dec_quantize_int :: "decimal \<Rightarrow> exn + int" where
  "dec_quantize_int (Decimal neg c e) =
     (if c = 0 then Inr 0
      else if int (ndigits c) + e > int PREC then Inl InvalidOperation
      else let n = (if e \<ge> 0 then c * 10 ^ nat e else round_half_even c (nat (- e)))
           in if ndigits n > PREC then Inl InvalidOperation
              else Inr (if neg then - int n else int n))"

text \<open>\<open>int((Decimal(s) * 100).quantize(Decimal("1")))\<close>.\<close>

definition decimal_cents :: "string \<Rightarrow> exn + int" where
  "decimal_cents s =
     (case parse_decimal s of
        None \<Rightarrow> Inl InvalidOperation
      | Some d \<Rightarrow> (case dec_mul100 d of Inl x \<Rightarrow> Inl x | Inr d' \<Rightarrow> dec_quantize_int d'))"

definition replace_comma :: "string \<Rightarrow> string" where
  "replace_comma s = map (\<lambda>c. if c = CHR '','' then CHR ''.'' else c) s"

text \<open>\<open>kretz_adapter._price_to_width(v, w)\<close>. \<open>str(v)\<close> stands before the \<open>try\<close>: its
  \<open>ValueError\<close> leaves the function. Inside the \<open>try\<close>, a text accepted by \<open>isdigit\<close> goes
  to \<open>int\<close>, which raises \<open>ValueError\<close> on a superscript digit and on more than 4300
  digits. The \<open>except (InvalidOperation, ValueError)\<close> clause sets \<open>cents = 0\<close>; any other
  exception leaves the function.\<close>

definition price_to_width :: "pyval \<Rightarrow> nat \<Rightarrow> exn + string" where
  "price_to_width v w =
     (if w = 0 then Inr []
      else if str_raises v then Inl ValueError
      else let s = replace_comma (strip (py_str v));
               attempt = (if s \<noteq> [] \<and> \<not> isdigit s then decimal_cents s
                          else if s = [] then Inr 0
                          else (case py_int s of None \<Rightarrow> Inl ValueError | Some n \<Rightarrow> Inr n));
               caught = (case attempt of
                           Inl x \<Rightarrow> if x = InvalidOperation \<or> x = ValueError then Inr 0 else Inl x
                         | Inr c \<Rightarrow> Inr c)
           in case caught of
                Inl x \<Rightarrow> Inl x
              | Inr cents0 \<Rightarrow>
                  (let cents = (if cents0 < 0 then 0 else cents0);
                       maxv = 10 ^ w - 1;
                       cents = (if cents > maxv then maxv else cents)
                   in Inr (rjust w (CHR ''0'') (str_int cents))))"

text \<open>
  \<open>float\<close> arithmetic is not modelled. The outcome of \<open>float(s)\<close> followed by
  \<open>int(round(p * 100))\<close> is a parameter of the model: the text is not a float
  (\<open>float(s)\<close> raises), the float is a NaN or an infinity (\<open>round\<close> raises), or the cents.
\<close>

datatype float_cents = NotAFloat | IsNaN | IsInf | Cents int

text \<open>\<open>kretz_adapter._imp_from_ctipoiva(v)\<close>: a value whose text is not a float, or has no
  text, counts as \<open>0.0\<close>.\<close>

definition imp_from_ctipoiva :: "(string \<Rightarrow> float_cents) \<Rightarrow> pyval \<Rightarrow> exn + string" where
  "imp_from_ctipoiva fl v =
     (case (if str_raises v then NotAFloat else fl (replace_comma (py_str v))) of
        NotAFloat \<Rightarrow> pad_num_adapter (PInt 0) 6
      | IsNaN \<Rightarrow> Inl ValueError
      | IsInf \<Rightarrow> Inl OverflowError
      | Cents n \<Rightarrow> pad_num_adapter (PInt n) 6)"

section \<open>The 2005 PLU record and the batch senders\<close>

text \<open>\<open>MODEL_2005_PLU\<close>: the field widths by field number (1..22). The source reads it
  only at constant keys in that range.\<close>

definition MODEL_2005_PLU :: "nat \<Rightarrow> nat" where
  "MODEL_2005_PLU k =
     [6, 3, 3, 26, 26, 5, 1, 7, 6, 6, 6, 6, 6, 5, 5, 2, 4, 4, 4, 0, 0, 4] ! (k - 1)"

definition MODEL_2005_TOTAL :: nat where
  "MODEL_2005_TOTAL = sum_list (map MODEL_2005_PLU [1..<23])"

definition valid_2005_data :: "string \<Rightarrow> bool" where
  "valid_2005_data datos = (length datos = MODEL_2005_TOTAL)"

definition CMD_ALTA_DEPTO :: string where "CMD_ALTA_DEPTO = ''2003''"
definition CMD_ALTA_PLU :: string where "CMD_ALTA_PLU = ''2005''"
definition TIPO_EQUIPO :: string where "TIPO_EQUIPO = ''C''"

record EquipoDef =
  eq_nombre :: string
  eq_ip :: string
  eq_puerto :: int
  id_equipo :: int
  idioma :: string

text \<open>\<open>KretzAdapter._mk_info_line(eq, cmd, datos)\<close>, for an equipment whose identifier has a
  text (every caller in the sources passes \<open>id_equipo=1\<close>).\<close>

definition mk_info_line :: "EquipoDef \<Rightarrow> string \<Rightarrow> string \<Rightarrow> string" where
  "mk_info_line eq cmd datos =
     TIPO_EQUIPO @ pad_num_text (str_or_empty (PInt (id_equipo eq))) 2 @ cmd @ datos"

text \<open>A value used as a text after \<open>v or default\<close>: slicing a non-empty non-text value
  raises \<open>TypeError\<close>.\<close>

definition text_or :: "pyval \<Rightarrow> string \<Rightarrow> exn + string" where
  "text_or v dflt =
     (if truthy v then (case v of PStr s \<Rightarrow> Inr s | _ \<Rightarrow> Inl TypeError) else Inr dflt)"

text \<open>The family number of the builder: \<open>int(str(fam_def).strip() or "0")\<close>, and \<open>0\<close>
  when the conversion raises.\<close>

definition familia_num :: "pyval \<Rightarrow> int" where
  "familia_num fam_def =
     (let fam_txt = strip (py_str fam_def) in
      case py_int (if fam_txt = [] then ''0'' else fam_txt) of None \<Rightarrow> 0 | Some n \<Rightarrow> n)"

text \<open>\<open>KretzAdapter._build_datos_2005_modelo(it, fam_def, dec_prec)\<close>: \<open>Inr None\<close> is the
  rejection (\<open>return None\<close>), \<open>Inl\<close> an exception that leaves the function.\<close>

definition build_datos_2005_modelo ::
  "(string \<Rightarrow> float_cents) \<Rightarrow> row \<Rightarrow> pyval \<Rightarrow> int \<Rightarrow> exn + string option" where
  "build_datos_2005_modelo fl it fam_def dec_prec =
     (case coerce_plu6 it of
        None \<Rightarrow> Inr None
      | Some plu6 \<Rightarrow>
     (case coerce_dep3 it of
        None \<Rightarrow> Inr None
      | Some dep \<Rightarrow>
     if plu6 = [] \<or> dep = [] then Inr None
     else
       let plu4 = last_n 4 plu6;
           fam_num = familia_num fam_def;
           fam = pad_num_w fam_num (MODEL_2005_PLU 3)
       in
       (case text_or (ci it [''CDETALLE'', ''descripcion'', ''nombre'']) (''PLU '' @ plu6) of
          Inl x \<Rightarrow> Inl x
        | Inr nom_src \<Rightarrow>
       let nom = pad_txt_w nom_src (MODEL_2005_PLU 4);
           desc = pad_txt_w [] (MODEL_2005_PLU 5);
           tipo0 = tipo_from_cvencom (ci it [''CVENCOM'']);
           tipo = ljust (MODEL_2005_PLU 7) (CHR '' '') (take 1 (if tipo0 = [] then ''P'' else tipo0));
           valor_fijo = pad_num_w 0 (MODEL_2005_PLU 8)
       in
       (case price_to_width (ci it [''NPVP1'', ''precio'']) (MODEL_2005_PLU 9) of
          Inl x \<Rightarrow> Inl x
        | Inr precio \<Rightarrow>
       let precio_alt = pad_num_w 0 (MODEL_2005_PLU 10);
           precio_ant = pad_num_w 0 (MODEL_2005_PLU 11)
       in
       (case imp_from_ctipoiva fl (ci it [''CTIPOIVA'']) of
          Inl x \<Rightarrow> Inl x
        | Inr imp \<Rightarrow>
       let imp1 = rjust (MODEL_2005_PLU 12) (CHR ''0'') (last_n (MODEL_2005_PLU 12) imp);
           imp2 = pad_num_w 0 (MODEL_2005_PLU 13);
           tara_pre = pad_num_w 0 (MODEL_2005_PLU 14);
           tara_pub = pad_num_w 0 (MODEL_2005_PLU 15);
           cod_etq = pad_num_w 1 (MODEL_2005_PLU 16);
           cod_rec = pad_num_w 0 (MODEL_2005_PLU 17);
           cod_nut = pad_num_w 0 (MODEL_2005_PLU 18);
           campo19 = pad_num_w 0 (MODEL_2005_PLU 19);
           dec_prec = max 0 (min 2 dec_prec);
           campo22 = pad_num_w dec_prec (MODEL_2005_PLU 22);
           cod5 = ''0'' @ plu4;
           cod5 = (if length cod5 \<noteq> MODEL_2005_PLU 6
                   then rjust (MODEL_2005_PLU 6) (CHR ''0'') (last_n (MODEL_2005_PLU 6) cod5)
                   else cod5)
       in Inr (Some (plu6 @ dep @ fam @ nom @ desc @ cod5 @ tipo @ valor_fijo @ precio
                     @ precio_alt @ precio_ant @ imp1 @ imp2 @ tara_pre @ tara_pub
                     @ cod_etq @ cod_rec @ cod_nut @ campo19 @ campo22)))))))"

text \<open>The \<open>on_progress\<close> reports of the senders that matter here: an item skipped because
  no PLU or department could be derived, and an item skipped because its record has the
  wrong length (the structural error, with the length found).\<close>

datatype event = SkipInvalid | SkipLen nat

text \<open>The loop over the items shared by \<open>enviar_plus\<close> and \<open>enviar_dptos_y_articulos\<close>:
  the lines appended to the batch and the skips reported. An exception of the builder
  leaves the sender before anything is sent.\<close>

fun plu_lines ::
  "(string \<Rightarrow> float_cents) \<Rightarrow> EquipoDef \<Rightarrow> pyval \<Rightarrow> row list \<Rightarrow> exn + (string list \<times> event list)" where
  "plu_lines fl eq fam [] = Inr ([], [])"
| "plu_lines fl eq fam (it # items) =
     (case build_datos_2005_modelo fl it fam 1 of
        Inl x \<Rightarrow> Inl x
      | Inr r \<Rightarrow>
          (case plu_lines fl eq fam items of
             Inl x \<Rightarrow> Inl x
           | Inr (ls, evs) \<Rightarrow>
               (case r of
                  None \<Rightarrow> Inr (ls, SkipInvalid # evs)
                | Some datos \<Rightarrow>
                    if datos = [] then Inr (ls, SkipInvalid # evs)
                    else if \<not> valid_2005_data datos then Inr (ls, SkipLen (length datos) # evs)
                    else Inr (mk_info_line eq CMD_ALTA_PLU datos # ls, evs))))"

text \<open>\<open>KretzAdapter.enviar_plus(eq, items, cod_familia_def)\<close>: the batch handed to \<open>_send\<close>
  (\<open>None\<close> when there is no valid line and nothing is sent) and the skips reported.\<close>

definition enviar_plus ::
  "(string \<Rightarrow> float_cents) \<Rightarrow> EquipoDef \<Rightarrow> row list \<Rightarrow> pyval \<Rightarrow> exn + (string list option \<times> event list)" where
  "enviar_plus fl eq items cod_familia_def =
     (case plu_lines fl eq cod_familia_def items of
        Inl x \<Rightarrow> Inl x
      | Inr (ls, evs) \<Rightarrow> if ls = [] then Inr (None, evs) else Inr (Some ls, evs))"

text \<open>A department argument of \<open>enviar_dptos_y_articulos\<close>: a bare code or a dict with
  \<open>codigo\<close> and \<open>nombre\<close>.\<close>

datatype depto_arg = DeptoCode pyval | DeptoDict row

definition depto_line :: "EquipoDef \<Rightarrow> depto_arg \<Rightarrow> exn + string" where
  "depto_line eq d =
     (case pad_num_adapter (case d of DeptoDict r \<Rightarrow> dict_get r ''codigo'' | DeptoCode c \<Rightarrow> c) 3 of
        Inl x \<Rightarrow> Inl x
      | Inr cod \<Rightarrow>
          (let nombre = (case d of DeptoDict r \<Rightarrow> dict_get r ''nombre'' | DeptoCode c \<Rightarrow> PStr (''DEP '' @ cod))
           in case text_or nombre (''DEP '' @ cod) of
                Inl x \<Rightarrow> Inl x
              | Inr n \<Rightarrow> Inr (mk_info_line eq CMD_ALTA_DEPTO (cod @ pad_txt n 16))))"

fun depto_lines :: "EquipoDef \<Rightarrow> depto_arg list \<Rightarrow> exn + string list" where
  "depto_lines eq [] = Inr []"
| "depto_lines eq (d # ds) =
     (case depto_line eq d of
        Inl x \<Rightarrow> Inl x
      | Inr l \<Rightarrow> (case depto_lines eq ds of Inl x \<Rightarrow> Inl x | Inr ls \<Rightarrow> Inr (l # ls)))"

text \<open>\<open>KretzAdapter.enviar_dptos_y_articulos(eq, deptos, articulos, cod_familia_def)\<close>: the
  single batch handed to \<open>_send\<close>, departments first.\<close>

definition enviar_dptos_y_articulos ::
  "(string \<Rightarrow> float_cents) \<Rightarrow> EquipoDef \<Rightarrow> depto_arg list \<Rightarrow> row list \<Rightarrow> pyval
     \<Rightarrow> exn + (string list \<times> event list)" where
  "enviar_dptos_y_articulos fl eq deptos articulos cod_familia_def =
     (case depto_lines eq deptos of
        Inl x \<Rightarrow> Inl x
      | Inr dl \<Rightarrow>
          (case plu_lines fl eq cod_familia_def articulos of
             Inl x \<Rightarrow> Inl x
           | Inr (pl, evs) \<Rightarrow> Inr (dl @ pl, evs)))"





section \<open>Configuration commands and the combined send workflow\<close>





text \<open>An equipment as \<open>RepoSybase._refresh\<close> caches it in \<open>self.equipos\<close>.\<close>

record equipo =
  e_id :: int
  e_nombre :: string
  e_ip :: string
  e_puerto :: int
  e_deptos :: "string list"
  e_autoreport :: bool




section \<open>The relational store and its DAOs\<close>

text \<open>
  The three tables the DAOs address, as lists of rows. Every call of \<open>DBAService.execute\<close>
  is one committed statement; a statement the engine rejects raises inside \<open>execute\<close>, which
  rolls back, prints and returns 0, so a rejected statement leaves the tables as they were
  and the caller goes on. The constraints are the ones the sources declare: the primary
  key and the two foreign keys of \<open>BALA_DPTOS\<close> (its \<open>CREATE TABLE\<close>), the generated id and
  the unique name of \<open>BALA_EQUIPOS\<close> (the docstring of its DAO). Texts are compared
  character by character, and \<open>ORDER BY\<close> on a text column is the order of the characters'
  codes. A database that cannot be reached is not modelled.
\<close>

record equipo_row =
  r_id :: int
  r_nombre :: string
  r_ip :: string
  r_puerto :: int
  r_autoreport :: bool

record store =
  GRP_VENT :: "(string \<times> string) list"
  BALA_EQUIPOS :: "equipo_row list"
  BALA_DPTOS :: "(int \<times> string) list"

text \<open>\<open>DELETE FROM DBA.BALA_DPTOS WHERE equipo_id = eid\<close>.\<close>

definition delete_bala_dptos :: "int \<Rightarrow> store \<Rightarrow> store" where
  "delete_bala_dptos eid s = s\<lparr>BALA_DPTOS := filter (\<lambda>r. fst r \<noteq> eid) (BALA_DPTOS s)\<rparr>"

text \<open>\<open>INSERT INTO DBA.BALA_DPTOS (equipo_id, cgrpconta) VALUES (eid, 'c')\<close>; \<open>sql_quote\<close>
  doubles the quotes of \<open>c\<close>, so the literal denotes \<open>c\<close> itself.\<close>

definition insert_bala_dptos :: "int \<Rightarrow> string \<Rightarrow> store \<Rightarrow> store" where
  "insert_bala_dptos eid c s =
     (if (eid, c) \<in> set (BALA_DPTOS s)
         \<or> eid \<notin> set (map r_id (BALA_EQUIPOS s))
         \<or> c \<notin> set (map fst (GRP_VENT s))
      then s
      else s\<lparr>BALA_DPTOS := BALA_DPTOS s @ [(eid, c)]\<rparr>)"

text \<open>\<open>BalaDeptosDAO.codigos_validos\<close>: the Python set of the codes the query returns, held
  as a list without duplicates.\<close>

definition codigos_validos :: "store \<Rightarrow> string list \<Rightarrow> string list" where
  "codigos_validos s codigos =
     (if codigos = [] then []
      else remdups (map fst (filter (\<lambda>r. fst r \<in> set codigos) (GRP_VENT s))))"

text \<open>\<open>BalaDeptosDAO.reemplazar_relaciones\<close>: the invalid codes and the store afterwards.\<close>

definition reemplazar_relaciones :: "int \<Rightarrow> string list \<Rightarrow> store \<Rightarrow> string list \<times> store" where
  "reemplazar_relaciones eid codigos s =
     (let s1 = delete_bala_dptos eid s;
          validos = codigos_validos s1 codigos;
          invalidos = filter (\<lambda>c. c \<notin> set validos) codigos
      in (invalidos, fold (insert_bala_dptos eid) validos s1))"

text \<open>\<open>BalaEquiposDAO\<close>: \<open>listar\<close>, \<open>get_id_por_nombre_ip\<close>, \<open>insertar\<close> (\<open>nid\<close> is the id the
  engine generates for the new row) and \<open>actualizar\<close>.\<close>

definition eq_listar :: "store \<Rightarrow> equipo_row list" where
  "eq_listar s = take 500 (sort_key r_id (BALA_EQUIPOS s))"

definition get_id_por_nombre_ip :: "string \<Rightarrow> string \<Rightarrow> store \<Rightarrow> int option" where
  "get_id_por_nombre_ip nombre ip s =
     (case rev (sort_key r_id (filter (\<lambda>r. r_nombre r = nombre \<and> r_ip r = ip) (BALA_EQUIPOS s))) of
        [] \<Rightarrow> None
      | r # rest \<Rightarrow> Some (r_id r))"

definition eq_insertar :: "int \<Rightarrow> string \<Rightarrow> string \<Rightarrow> int \<Rightarrow> bool \<Rightarrow> store \<Rightarrow> store" where
  "eq_insertar nid nombre ip puerto autoreport s =
     (if nid \<in> set (map r_id (BALA_EQUIPOS s)) \<or> nombre \<in> set (map r_nombre (BALA_EQUIPOS s))
      then s
      else s\<lparr>BALA_EQUIPOS := BALA_EQUIPOS s @
             [\<lparr>r_id = nid, r_nombre = nombre, r_ip = ip, r_puerto = puerto, r_autoreport = autoreport\<rparr>]\<rparr>)"

definition eq_actualizar :: "int \<Rightarrow> string \<Rightarrow> string \<Rightarrow> int \<Rightarrow> bool \<Rightarrow> store \<Rightarrow> store" where
  "eq_actualizar eid nombre ip puerto autoreport s =
     (if list_ex (\<lambda>r. r_id r = eid) (BALA_EQUIPOS s)
         \<and> list_ex (\<lambda>r. r_id r \<noteq> eid \<and> r_nombre r = nombre) (BALA_EQUIPOS s)
      then s
      else s\<lparr>BALA_EQUIPOS :=
             map (\<lambda>r. if r_id r = eid
                      then r\<lparr>r_nombre := nombre, r_ip := ip, r_puerto := puerto, r_autoreport := autoreport\<rparr>
                      else r)
                 (BALA_EQUIPOS s)\<rparr>)"

text \<open>\<open>DepartamentosGRPVentDAO\<close>: \<open>listar\<close> (code and name) and \<open>eliminar\<close>, which the foreign
  key of \<open>BALA_DPTOS\<close> rejects while a relation row names the code.\<close>

definition dep_listar :: "store \<Rightarrow> (string \<times> string) list" where
  "dep_listar s = take 1000 (sort_key fst (GRP_VENT s))"

definition dep_eliminar :: "string \<Rightarrow> store \<Rightarrow> store" where
  "dep_eliminar c s =
     (if c \<in> set (map snd (BALA_DPTOS s)) then s
      else s\<lparr>GRP_VENT := filter (\<lambda>r. fst r \<noteq> c) (GRP_VENT s)\<rparr>)"

section \<open>The repository facade \<open>RepoSybase\<close>\<close>

text \<open>The facade holds the DAOs' store and two cached lists, \<open>self.departamentos\<close> and
  \<open>self.equipos\<close>, which only \<open>_refresh\<close> rewrites.\<close>

record repo_sybase =
  rs_store :: store
  rs_departamentos :: "(string \<times> string) list"
  rs_equipos :: "equipo list"

datatype repo_exn =
    DeptoEnUso
  | DeptoNoEncontrado
  | DeptosInexistentes "string list"
  | IndiceFueraDeRango
  | KeyError string

definition refresh :: "repo_sybase \<Rightarrow> repo_sybase" where
  "refresh r =
     r\<lparr>rs_departamentos := dep_listar (rs_store r),
       rs_equipos :=
         map (\<lambda>e. \<lparr>e_id = r_id e, e_nombre = r_nombre e, e_ip = r_ip e,
                   e_puerto = (if r_puerto e = 0 then 1001 else r_puerto e),
                   e_deptos = sort (map snd (filter (\<lambda>rr. fst rr = r_id e) (BALA_DPTOS (rs_store r)))),
                   e_autoreport = r_autoreport e\<rparr>)
             (eq_listar (rs_store r))\<rparr>"

text \<open>\<open>depto_codigos or []\<close>.\<close>

definition or_empty :: "string list option \<Rightarrow> string list" where
  "or_empty cs = (case cs of None \<Rightarrow> [] | Some l \<Rightarrow> l)"

text \<open>The tail shared by \<open>add_equipo\<close> and \<open>update_equipo\<close>: replace the relations, raise on
  an invalid code (the store keeps what the statements committed, the cache is not
  refreshed), refresh otherwise.\<close>

definition relaciones_o_error ::
  "int \<Rightarrow> string list option \<Rightarrow> store \<Rightarrow> repo_sybase \<Rightarrow> (repo_exn + unit) \<times> repo_sybase" where
  "relaciones_o_error eid depto_codigos s r =
     (case reemplazar_relaciones eid (or_empty depto_codigos) s of
        (invalidos, s2) \<Rightarrow>
          if invalidos \<noteq> [] then (Inl (DeptosInexistentes invalidos), r\<lparr>rs_store := s2\<rparr>)
          else (Inr (), refresh (r\<lparr>rs_store := s2\<rparr>)))"

definition add_equipo ::
  "int \<Rightarrow> string \<Rightarrow> string \<Rightarrow> int \<Rightarrow> string list option \<Rightarrow> bool \<Rightarrow> repo_sybase
     \<Rightarrow> (repo_exn + unit) \<times> repo_sybase" where
  "add_equipo nid nombre ip puerto depto_codigos autoreport r =
     (let s1 = eq_insertar nid nombre ip puerto autoreport (rs_store r)
      in case get_id_por_nombre_ip nombre ip s1 of
           None \<Rightarrow> (Inr (), refresh (r\<lparr>rs_store := s1\<rparr>))
         | Some eid \<Rightarrow> relaciones_o_error eid depto_codigos s1 r)"

definition update_equipo ::
  "int \<Rightarrow> string \<Rightarrow> string \<Rightarrow> int \<Rightarrow> string list option \<Rightarrow> bool \<Rightarrow> repo_sybase
     \<Rightarrow> (repo_exn + unit) \<times> repo_sybase" where
  "update_equipo idx nombre ip puerto depto_codigos autoreport r =
     (let lista = eq_listar (rs_store r)
      in if \<not> (0 \<le> idx \<and> idx < int (length lista)) then (Inl IndiceFueraDeRango, r)
         else
           let eid = r_id (lista ! nat idx);
               s1 = eq_actualizar eid nombre ip puerto autoreport (rs_store r)
           in relaciones_o_error eid depto_codigos s1 r)"

definition delete_depto :: "string \<Rightarrow> repo_sybase \<Rightarrow> (repo_exn + unit) \<times> repo_sybase" where
  "delete_depto codigo r =
     (if list_ex (\<lambda>e. codigo \<in> set (e_deptos e)) (rs_equipos r) then (Inl DeptoEnUso, r)
      else (Inr (), refresh (r\<lparr>rs_store := dep_eliminar codigo (rs_store r)\<rparr>)))"

section \<open>The JSON repository of the department screen\<close>

text \<open>
  \<open>abm_departamentos.Repo\<close> keeps two lists of JSON objects, loaded from and saved to
  \<open>abm_data.json\<close>. An object is a list of keys and values; \<open>jr_file\<close> is what the file
  holds. A write that fails is logged and not modelled.
\<close>

datatype jval = JNull | JStr string | JNum int | JBool bool | JList "jval list"

type_synonym jdict = "(string \<times> jval) list"

record json_repo =
  jr_departamentos :: "jdict list"
  jr_equipos :: "jdict list"
  jr_file :: "(jdict list \<times> jdict list) option"

definition jr_save :: "json_repo \<Rightarrow> json_repo" where
  "jr_save r = r\<lparr>jr_file := Some (jr_departamentos r, jr_equipos r)\<rparr>"

text \<open>\<open>Repo.delete_depto\<close>. \<open>e.get("depto_codigo") == codigo\<close> holds for the text \<open>codigo\<close> only;
  \<open>d["codigo"]\<close> raises \<open>KeyError\<close> on an object without that key, before the list is
  assigned.\<close>

definition jr_delete_depto :: "string \<Rightarrow> json_repo \<Rightarrow> (repo_exn + unit) \<times> json_repo" where
  "jr_delete_depto codigo r =
     (if list_ex (\<lambda>e. map_of e ''depto_codigo'' = Some (JStr codigo)) (jr_equipos r)
      then (Inl DeptoEnUso, r)
      else if list_ex (\<lambda>d. map_of d ''codigo'' = None) (jr_departamentos r)
      then (Inl (KeyError ''codigo''), r)
      else
        let kept = filter (\<lambda>d. map_of d ''codigo'' \<noteq> Some (JStr codigo)) (jr_departamentos r)
        in if length kept = length (jr_departamentos r)
           then (Inl DeptoNoEncontrado, r\<lparr>jr_departamentos := kept\<rparr>)
           else (Inr (), jr_save (r\<lparr>jr_departamentos := kept\<rparr>)))"

section \<open>The direct TCP client \<open>KretzTCP\<close>\<close>

text \<open>
  The scale as the client sees it: \<open>dev n f\<close> is what \<open>send\<close> returns for the \<open>n\<close>-th frame
  put on the socket, when that frame is \<open>f\<close>: the bytes read until \<open>ETX\<close>, the end of the
  stream or the read timeout (possibly none), or \<open>None\<close> when the socket raises, which
  \<open>send\<close> and \<open>send_many\<close> let through. The pauses between frames are not modelled.
\<close>

type_synonym device = "nat \<Rightarrow> byte list \<Rightarrow> byte list option"

text \<open>\<open>resp and resp[0] == RESP_STX and resp[-1] == ETX\<close>.\<close>

definition valid_resp :: "byte list \<Rightarrow> bool" where
  "valid_resp resp = (resp \<noteq> [] \<and> hd resp = RESP_STX \<and> last resp = ETX)"

text \<open>
  The \<open>while True\<close> loop of \<open>send_many\<close> for one frame, from the current value of
  \<open>intentos\<close> and the number \<open>n\<close> of frames sent so far: the entry appended to \<open>resps\<close>
  (\<open>None\<close> when the socket raised) and the number of frames sent afterwards.
\<close>

function send_retry :: "device \<Rightarrow> int \<Rightarrow> byte list \<Rightarrow> int \<Rightarrow> nat \<Rightarrow> byte list option \<times> nat" where
  "send_retry dev max_retries f intentos n =
     (case dev n f of
        None \<Rightarrow> (None, Suc n)
      | Some resp \<Rightarrow>
          if valid_resp resp then (Some resp, Suc n)
          else if intentos + 1 > max_retries then (Some resp, Suc n)
          else send_retry dev max_retries f (intentos + 1) (Suc n))"
  by pat_completeness auto
termination
  by (relation "measure (\<lambda>(dev, max_retries, f, intentos, n). nat (max_retries - intentos))") auto

declare send_retry.simps [simp del]

text \<open>The \<open>for f in frames\<close> loop, with the list \<open>resps\<close> built so far.\<close>

fun send_frames :: "device \<Rightarrow> int \<Rightarrow> byte list list \<Rightarrow> nat \<Rightarrow> byte list list \<Rightarrow> byte list list option" where
  "send_frames dev max_retries [] n resps = Some resps"
| "send_frames dev max_retries (f # fs) n resps =
     (case send_retry dev max_retries f 0 n of
        (None, m) \<Rightarrow> None
      | (Some resp, m) \<Rightarrow> send_frames dev max_retries fs m (resps @ [resp]))"

text \<open>\<open>KretzTCP.send_many\<close>; \<open>conn\<close> tells whether \<open>connect\<close> (entered by \<open>with self\<close>)
  succeeds.\<close>

definition send_many :: "device \<Rightarrow> bool \<Rightarrow> byte list list \<Rightarrow> int \<Rightarrow> byte list list option" where
  "send_many dev conn frames max_retries =
     (if conn then send_frames dev max_retries frames 0 [] else None)"

text \<open>
  \<open>EnvioBalanzasService.enviar_departamentos\<close> for one equipment with the department
  codes \<open>orig\<close>: the frames, one per code (\<open>frame_of c_raw c3\<close> stands for
  \<open>cmd_departamento\<close> applied to the code and the name looked up for it), the call of
  \<open>send_many\<close>, and the outcome reported for each code (\<open>depto_ok\<close> or \<open>depto_error\<close>).
\<close>

definition resp_ok :: "byte list \<Rightarrow> bool" where
  "resp_ok resp = (resp \<noteq> [] \<and> 4 \<le> length resp \<and> hd resp = RESP_STX \<and> last resp = ETX)"

definition enviar_departamentos_equipo ::
  "device \<Rightarrow> bool \<Rightarrow> (string \<Rightarrow> string \<Rightarrow> byte list) \<Rightarrow> int \<Rightarrow> string list \<Rightarrow> (string \<times> bool) list option" where
  "enviar_departamentos_equipo dev conn frame_of max_retries orig =
     (let cods3 = map (\<lambda>c. rjust 3 (CHR ''0'') (last_n 3 c)) orig;
          frames = map (\<lambda>(c_raw, c3). frame_of c_raw c3) (zip orig cods3)
      in case send_many dev conn frames max_retries of
           None \<Rightarrow> None
         | Some resps \<Rightarrow>
             Some (map (\<lambda>idx. (cods3 ! idx, resp_ok (if idx < length resps then resps ! idx else [])))
                       [0..<length cods3]))"

section \<open>The JDataGate file driver\<close>




section \<open>Verified properties\<close>

subsection \<open>Checksum\<close>

lemma and255: "(t::int) AND 255 = t mod 256"
  using take_bit_eq_mask[of 8 t] by (simp add: take_bit_eq_mod mask_eq_exp_minus_1)

lemma and15: "(t::int) AND 15 = t mod 16"
  using take_bit_eq_mask[of 4 t] by (simp add: take_bit_eq_mod mask_eq_exp_minus_1)

lemma hi_nibble: "drop_bit 4 ((t::int) AND 255) AND 15 = (t mod 256) div 16"
proof -
  have "0 \<le> t mod 256" "t mod 256 < 256" by simp_all
  then have "(t mod 256) div 16 < 16" "0 \<le> (t mod 256) div 16" by auto
  then show ?thesis unfolding and255 and15 drop_bit_eq_div by simp
qed

lemma lo_nibble: "((t::int) AND 255) AND 15 = (t mod 256) mod 16"
  unfolding and255 and15 ..

lemma nibble_byte: "0 \<le> n \<Longrightarrow> n < 16 \<Longrightarrow> uint (word_of_int (n + 48) :: byte) = n + 48"
  by (subst uint_word_of_int) (simp add: take_bit_eq_mod)

lemma checksum_envios_eq:
  "checksum_bytes_envios p =
     [word_of_int (sum_bytes p mod 256 div 16 + 48), word_of_int (sum_bytes p mod 256 mod 16 + 48)]"
  unfolding checksum_bytes_envios_def Let_def hi_nibble lo_nibble by simp

lemma checksum_driver_eq:
  "checksum_bytes_driver p =
     [word_of_int (sum_bytes p mod 256 div 16 + 48), word_of_int (sum_bytes p mod 256 mod 16 + 48)]"
  unfolding checksum_bytes_driver_def Let_def hi_nibble lo_nibble by simp

text \<open>
  Claim C1. For every command body, both checksum implementations applied to
  \<open>STX + body\<close> return exactly two bytes: with \<open>s\<close> the sum of all bytes modulo 256,
  the first byte is the high nibble of \<open>s\<close> plus \<open>0x30\<close> and the second the low nibble plus
  \<open>0x30\<close>; each byte lies in \<open>0x30..0x3F\<close>, and equal inputs give equal checksum bytes.
\<close>

theorem checksum_two_ascii_nibbles:
  "\<exists>hi lo. checksum_bytes_envios (STX # body) = [hi, lo]
        \<and> checksum_bytes_driver (STX # body) = [hi, lo]
        \<and> uint hi = (sum_bytes (STX # body) mod 256) div 16 + 0x30
        \<and> uint lo = (sum_bytes (STX # body) mod 256) mod 16 + 0x30
        \<and> 0x30 \<le> uint hi \<and> uint hi \<le> 0x3F \<and> 0x30 \<le> uint lo \<and> uint lo \<le> 0x3F
        \<and> (\<forall>body'. body' = body \<longrightarrow>
               checksum_bytes_envios (STX # body') = [hi, lo]
             \<and> checksum_bytes_driver (STX # body') = [hi, lo])"
proof -
  let ?s = "sum_bytes (STX # body) mod 256"
  let ?hi = "word_of_int (?s div 16 + 48) :: byte"
  let ?lo = "word_of_int (?s mod 16 + 48) :: byte"
  have s: "0 \<le> ?s" "?s < 256" by simp_all
  then have h: "0 \<le> ?s div 16" "?s div 16 < 16" by auto
  have l: "0 \<le> ?s mod 16" "?s mod 16 < 16" by simp_all
  have uh: "uint ?hi = ?s div 16 + 48" by (rule nibble_byte [OF h])
  have ul: "uint ?lo = ?s mod 16 + 48" by (rule nibble_byte [OF l])
  have "checksum_bytes_envios (STX # body) = [?hi, ?lo]" by (rule checksum_envios_eq)
  moreover have "checksum_bytes_driver (STX # body) = [?hi, ?lo]" by (rule checksum_driver_eq)
  moreover have "48 \<le> uint ?hi" "uint ?hi \<le> 63" unfolding uh using h by linarith+
  moreover have "48 \<le> uint ?lo" "uint ?lo \<le> 63" unfolding ul using l by linarith+
  ultimately show ?thesis using uh ul by (intro exI [of _ ?hi] exI [of _ ?lo]) (simp only: simp_thms)
qed


lemma sum_bytes_simps: "sum_bytes [] = 0" "sum_bytes (b # bs) = uint b + sum_bytes bs"
  by (simp_all add: sum_bytes_def)

theorem checksum_two_ascii_nibbles_witness:
  "\<exists>hi lo. checksum_bytes_envios (STX # [0x43, 0x30, 0x31, 0x30, 0x30, 0x30, 0x32]) = [hi, lo]
        \<and> checksum_bytes_driver (STX # [0x43, 0x30, 0x31, 0x30, 0x30, 0x30, 0x32]) = [hi, lo]
        \<and> uint hi = 0x36 \<and> uint lo = 0x38"
proof -
  have s: "sum_bytes (STX # [0x43, 0x30, 0x31, 0x30, 0x30, 0x30, 0x32]) = 360"
    by (simp add: sum_bytes_simps STX_def)
  obtain hi lo where
    "checksum_bytes_envios (STX # [0x43, 0x30, 0x31, 0x30, 0x30, 0x30, 0x32]) = [hi, lo]"
    "checksum_bytes_driver (STX # [0x43, 0x30, 0x31, 0x30, 0x30, 0x30, 0x32]) = [hi, lo]"
    "uint hi = 360 mod 256 div 16 + 0x30" "uint lo = 360 mod 256 mod 16 + 0x30"
    using checksum_two_ascii_nibbles [of "[0x43, 0x30, 0x31, 0x30, 0x30, 0x30, 0x32]"]
    unfolding s by blast
  moreover have "(360::int) mod 256 div 16 + 0x30 = 0x36" "(360::int) mod 256 mod 16 + 0x30 = 0x38"
    by simp_all
  ultimately show ?thesis by (intro exI [of _ hi] exI [of _ lo]) (simp only: simp_thms)
qed


subsection \<open>Numeric padding\<close>

lemma length_rjust: "length (rjust w c s) = max w (length s)"
  by (simp add: rjust_def)

lemma length_ljust: "length (ljust w c s) = max w (length s)"
  by (simp add: ljust_def)

lemma length_last_n: "0 < n \<Longrightarrow> length (last_n n s) \<le> n"
  by (simp add: last_n_def)

lemma length_pad_num: "pad_num v w = Inr p \<Longrightarrow> length p = w"
  by (auto simp: pad_num_def Let_def length_rjust split: if_splits)

lemma length_pad_num_text: "0 < w \<Longrightarrow> length (pad_num_text s w) = w"
  by (simp add: pad_num_text_def Let_def length_rjust max_absorb1 length_last_n)

lemma length_pad_num_adapter: "0 < w \<Longrightarrow> pad_num_adapter v w = Inr p \<Longrightarrow> length p = w"
  by (auto simp: pad_num_adapter_def length_pad_num_text split: if_splits)

lemma only_digits_all: "list_all is_digit s \<Longrightarrow> only_digits s = s"
  by (simp add: only_digits_def list_all_iff)

lemma is_digit_py_digit: "is_digit c \<Longrightarrow> is_digit_py c"
  by (simp add: is_digit_py_def)

lemma isdigit_ascii: "s \<noteq> [] \<Longrightarrow> list_all is_digit s \<Longrightarrow> isdigit s"
  by (auto simp: isdigit_def list_all_iff is_digit_py_digit)

lemma pad_number_spec_eq: "pad_number_spec t w = rjust w (CHR ''0'') (drop (length (only_digits t) - w) (only_digits t))"
  by (simp add: pad_number_spec_def rjust_def Let_def)

lemma pad_num_raises: "str_raises v \<Longrightarrow> pad_num v w = Inl ValueError"
  by (simp add: pad_num_def)

lemma pad_num_adapter_raises: "str_raises v \<Longrightarrow> pad_num_adapter v w = Inl ValueError"
  by (simp add: pad_num_adapter_def)

lemma pad_num_value:
  "\<not> str_raises v \<Longrightarrow>
   pad_num v w = Inr (take w (rjust w (CHR ''0'') (join_isdigit (case v of PNone \<Rightarrow> [] | _ \<Rightarrow> py_str v))))"
  by (simp add: pad_num_def Let_def)

lemma pad_num_short:
  assumes "\<not> str_raises v"
    and "join_isdigit (case v of PNone \<Rightarrow> [] | _ \<Rightarrow> py_str v) = only_digits (case v of PNone \<Rightarrow> [] | _ \<Rightarrow> py_str v)"
    and "length (only_digits (case v of PNone \<Rightarrow> [] | _ \<Rightarrow> py_str v)) \<le> w"
  shows "pad_num v w = Inr (pad_number_spec (case v of PNone \<Rightarrow> [] | _ \<Rightarrow> py_str v) w)"
  using assms by (simp add: pad_num_value pad_number_spec_eq rjust_def)

lemma pad_num_adapter_isdigit:
  "\<not> str_raises v \<Longrightarrow> isdigit (strip (str_or_empty v)) \<Longrightarrow>
   pad_num_adapter v w = Inr (rjust w (CHR ''0'') (last_n w (strip (str_or_empty v))))"
  by (simp add: pad_num_adapter_def pad_num_text_def Let_def)

lemma pad_num_adapter_digits:
  assumes "0 < w" "\<not> str_raises v" "strip (str_or_empty v) \<noteq> []"
    "list_all is_digit (strip (str_or_empty v))"
  shows "pad_num_adapter v w = Inr (pad_number_spec (strip (str_or_empty v)) w)"
proof -
  have "isdigit (strip (str_or_empty v))" using assms(3,4) by (rule isdigit_ascii)
  then show ?thesis
    using assms(1,2,4)
    by (simp add: pad_num_adapter_isdigit pad_number_spec_eq last_n_def only_digits_all)
qed

lemma pad_num_text_other:
  assumes w: "0 < w" and nd: "\<not> isdigit (strip s)"
  shows "pad_num_text s w = replicate w (CHR ''0'')"
proof -
  have "pad_num_text s w = rjust w (CHR ''0'') (last_n w ''0'')"
    using nd by (simp add: pad_num_text_def Let_def)
  also have "last_n w ''0'' = ''0''" using w by (simp add: last_n_def)
  also have "rjust w (CHR ''0'') ''0'' = replicate (w - 1) (CHR ''0'') @ [CHR ''0'']"
    by (simp add: rjust_def)
  also have "\<dots> = replicate w (CHR ''0'')"
    using w by (cases w) (simp_all add: replicate_append_same)
  finally show ?thesis .
qed

lemma pad_num_adapter_other:
  "0 < w \<Longrightarrow> \<not> str_raises v \<Longrightarrow> \<not> isdigit (strip (str_or_empty v)) \<Longrightarrow>
   pad_num_adapter v w = Inr (replicate w (CHR ''0''))"
  by (simp add: pad_num_adapter_def pad_num_text_other)

text \<open>
  Claim C2 (amended). For every positive width and every value whose text exists, both
  padding operations return exactly \<open>width\<close> characters; for an integer of more than
  4300 digits \<open>str\<close> raises \<open>ValueError\<close> in both. \<open>pad_num\<close> keeps the characters that
  \<open>isdigit\<close> accepts (the digits and the superscripts one, two and three) and, when at most
  \<open>width\<close> of them remain, left-pads them with \<open>'0'\<close>: that is the claimed rule when the
  text holds no superscript digit. \<open>_pad_num\<close> does not strip: when \<open>isdigit\<close> accepts the
  trimmed text it keeps its rightmost \<open>width\<close> characters, left-padded with \<open>'0'\<close> (the
  claimed rule when they are the digits \<open>0\<close> to \<open>9\<close>), and it returns \<open>width\<close> zeros for any
  other text (a single other character is enough).
\<close>

theorem pad_num_rules:
  assumes "0 < w"
  shows "(str_raises v \<longrightarrow> pad_num v w = Inl ValueError \<and> pad_num_adapter v w = Inl ValueError)
       \<and> (\<not> str_raises v \<longrightarrow>
            (\<exists>p q. pad_num v w = Inr p \<and> length p = w \<and> pad_num_adapter v w = Inr q \<and> length q = w)
          \<and> (length (join_isdigit (case v of PNone \<Rightarrow> [] | _ \<Rightarrow> py_str v)) \<le> w \<longrightarrow>
                pad_num v w =
                  Inr (rjust w (CHR ''0'') (join_isdigit (case v of PNone \<Rightarrow> [] | _ \<Rightarrow> py_str v))))
          \<and> (join_isdigit (case v of PNone \<Rightarrow> [] | _ \<Rightarrow> py_str v)
                = only_digits (case v of PNone \<Rightarrow> [] | _ \<Rightarrow> py_str v)
              \<and> length (only_digits (case v of PNone \<Rightarrow> [] | _ \<Rightarrow> py_str v)) \<le> w \<longrightarrow>
                pad_num v w = Inr (pad_number_spec (case v of PNone \<Rightarrow> [] | _ \<Rightarrow> py_str v) w))
          \<and> (isdigit (strip (str_or_empty v)) \<longrightarrow>
                pad_num_adapter v w = Inr (rjust w (CHR ''0'') (last_n w (strip (str_or_empty v)))))
          \<and> (strip (str_or_empty v) \<noteq> [] \<and> list_all is_digit (strip (str_or_empty v)) \<longrightarrow>
                pad_num_adapter v w = Inr (pad_number_spec (strip (str_or_empty v)) w))
          \<and> (\<not> isdigit (strip (str_or_empty v)) \<longrightarrow>
                pad_num_adapter v w = Inr (replicate w (CHR ''0''))))"
proof (intro conjI impI)
  assume "str_raises v"
  then show "pad_num v w = Inl ValueError" "pad_num_adapter v w = Inl ValueError"
    by (simp_all add: pad_num_raises pad_num_adapter_raises)
next
  assume n: "\<not> str_raises v"
  obtain p where p: "pad_num v w = Inr p" using n by (simp add: pad_num_value)
  obtain q where q: "pad_num_adapter v w = Inr q" using n by (simp add: pad_num_adapter_def)
  show "\<exists>p q. pad_num v w = Inr p \<and> length p = w \<and> pad_num_adapter v w = Inr q \<and> length q = w"
    using p q length_pad_num [OF p] length_pad_num_adapter [OF assms q] by blast
next
  assume n: "\<not> str_raises v"
    and "length (join_isdigit (case v of PNone \<Rightarrow> [] | _ \<Rightarrow> py_str v)) \<le> w"
  then show "pad_num v w =
      Inr (rjust w (CHR ''0'') (join_isdigit (case v of PNone \<Rightarrow> [] | _ \<Rightarrow> py_str v)))"
    by (simp add: pad_num_value rjust_def)
next
  assume n: "\<not> str_raises v"
    and "join_isdigit (case v of PNone \<Rightarrow> [] | _ \<Rightarrow> py_str v)
                = only_digits (case v of PNone \<Rightarrow> [] | _ \<Rightarrow> py_str v)
              \<and> length (only_digits (case v of PNone \<Rightarrow> [] | _ \<Rightarrow> py_str v)) \<le> w"
  then show "pad_num v w = Inr (pad_number_spec (case v of PNone \<Rightarrow> [] | _ \<Rightarrow> py_str v) w)"
    by (simp add: pad_num_short)
next
  assume "\<not> str_raises v" "isdigit (strip (str_or_empty v))"
  then show "pad_num_adapter v w = Inr (rjust w (CHR ''0'') (last_n w (strip (str_or_empty v))))"
    by (rule pad_num_adapter_isdigit)
next
  assume "\<not> str_raises v" "strip (str_or_empty v) \<noteq> [] \<and> list_all is_digit (strip (str_or_empty v))"
  then show "pad_num_adapter v w = Inr (pad_number_spec (strip (str_or_empty v)) w)"
    using assms by (simp add: pad_num_adapter_digits)
next
  assume "\<not> str_raises v" "\<not> isdigit (strip (str_or_empty v))"
  then show "pad_num_adapter v w = Inr (replicate w (CHR ''0''))"
    using assms by (simp add: pad_num_adapter_other)
qed

lemma of_char_examples:
  "(of_char (CHR 0xA0) :: nat) = 160" "(of_char (CHR 0x85) :: nat) = 133"
  "(of_char (CHR 0xB2) :: nat) = 178" "(of_char (CHR 0xB3) :: nat) = 179"
  "(of_char (CHR 0xB9) :: nat) = 185"
  by simp_all

lemma str_raises_text: "\<not> str_raises (PStr s)" "\<not> str_raises PNone"
  by (simp_all add: str_raises_def)

lemma strip_digits_simps:
  "strip ''5'' = ''5''" "strip ''005'' = ''005''" "strip ''1005'' = ''1005''"
  "strip ''A5'' = ''A5''" "strip [CHR 0xA0, CHR ''5''] = ''5''" "strip [CHR 0xB2] = [CHR 0xB2]"
  by (simp_all add: strip_def is_space_def)

lemma isdigit_simps:
  "isdigit ''5''" "isdigit ''005''" "isdigit ''1005''" "\<not> isdigit ''A5''" "isdigit [CHR 0xB2]"
  by (simp_all add: isdigit_def is_digit_py_def is_digit_def)

lemma all_digit_simps:
  "list_all is_digit ''5''" "list_all is_digit ''005''" "list_all is_digit ''1005''"
  by (simp_all add: is_digit_def)

lemma join_isdigit_simps:
  "join_isdigit ''5'' = ''5''" "join_isdigit ''005'' = ''005''" "join_isdigit ''1005'' = ''1005''"
  "only_digits ''5'' = ''5''" "only_digits ''005'' = ''005''" "only_digits ''1005'' = ''1005''"
  by (simp_all add: join_isdigit_def only_digits_def is_digit_py_def is_digit_def)

lemma spec_examples:
  "pad_number_spec ''5'' 3 = ''005''" "pad_number_spec ''005'' 3 = ''005''"
  "pad_number_spec ''1005'' 3 = ''005''"
  by (simp_all add: pad_number_spec_def only_digits_def is_digit_def Let_def numeral_2_eq_2)

theorem pad_num_rules_witness:
  "pad_num (PStr ''5'') 3 = Inr ''005'' \<and> pad_num_adapter (PStr ''5'') 3 = Inr ''005''
   \<and> pad_num (PStr ''005'') 3 = Inr ''005'' \<and> pad_num_adapter (PStr ''005'') 3 = Inr ''005''
   \<and> pad_num_adapter (PStr ''1005'') 3 = Inr ''005''
   \<and> pad_num_adapter (PStr ''A5'') 3 = Inr ''000''
   \<and> pad_num_adapter (PStr [CHR 0xA0, CHR ''5'']) 3 = Inr ''005''
   \<and> pad_num_adapter (PStr [CHR 0xB2]) 3 = Inr [CHR ''0'', CHR ''0'', CHR 0xB2]"
proof -
  have w: "(0::nat) < 3" by simp
  have r: "replicate 3 (CHR ''0'') = ''000''" by (simp add: numeral_3_eq_3)
  have l: "last_n 3 [CHR 0xB2] = [CHR 0xB2]" "rjust 3 (CHR ''0'') [CHR 0xB2] = [CHR ''0'', CHR ''0'', CHR 0xB2]"
    by (simp_all add: last_n_def rjust_def numeral_2_eq_2)
  have e: "rjust 3 (CHR ''0'') ''5'' = ''005''" "rjust 3 (CHR ''0'') ''005'' = ''005''"
    "rjust 3 (CHR ''0'') (last_n 3 ''5'') = ''005''" "rjust 3 (CHR ''0'') (last_n 3 ''005'') = ''005''"
    "rjust 3 (CHR ''0'') (last_n 3 ''1005'') = ''005''"
    by (simp_all add: rjust_def last_n_def numeral_2_eq_2)
  note s = str_raises_text str_or_empty_def strip_digits_simps isdigit_simps all_digit_simps
    join_isdigit_simps spec_examples e
  have "pad_num (PStr ''5'') 3 = Inr ''005''" "pad_num_adapter (PStr ''5'') 3 = Inr ''005''"
    using pad_num_rules [OF w, of "PStr ''5''"] by (simp_all add: s)
  moreover have "pad_num (PStr ''005'') 3 = Inr ''005''" "pad_num_adapter (PStr ''005'') 3 = Inr ''005''"
    using pad_num_rules [OF w, of "PStr ''005''"] by (simp_all add: s)
  moreover have "pad_num_adapter (PStr ''1005'') 3 = Inr ''005''"
    using pad_num_rules [OF w, of "PStr ''1005''"] by (simp add: s)
  moreover have "pad_num_adapter (PStr ''A5'') 3 = Inr ''000''"
    using pad_num_rules [OF w, of "PStr ''A5''"] by (simp add: s r)
  moreover have "pad_num_adapter (PStr [CHR 0xA0, CHR ''5'']) 3 = Inr ''005''"
    using pad_num_rules [OF w, of "PStr [CHR 0xA0, CHR ''5'']"] by (simp add: s)
  moreover have "pad_num_adapter (PStr [CHR 0xB2]) 3 = Inr [CHR ''0'', CHR ''0'', CHR 0xB2]"
    using pad_num_rules [OF w, of "PStr [CHR 0xB2]"] by (simp add: s l)
  ultimately show ?thesis by (simp only: simp_thms)
qed

text \<open>The claim as stated fails: \<open>_pad_num\<close> does not strip non-digits (\<open>"A5"\<close> pads to
  \<open>"000"\<close>, not \<open>"005"\<close>), and \<open>pad_num\<close> keeps the leftmost digits of \<open>"1005"\<close>.\<close>

theorem pad_num_counterexample:
  "pad_num_adapter (PStr ''A5'') 3 = Inr ''000'' \<and> pad_number_spec ''A5'' 3 = ''005''
   \<and> pad_num (PStr ''1005'') 3 = Inr ''100'' \<and> pad_number_spec ''1005'' 3 = ''005''"
  by (simp add: pad_num_adapter_def pad_num_text_def pad_num_def pad_number_spec_def
        str_raises_def str_or_empty_def strip_def
        is_space_def isdigit_def only_digits_def join_isdigit_def is_digit_py_def is_digit_def
        rjust_def last_n_def Let_def numeral_2_eq_2)


subsection \<open>PLU derivation\<close>




lemma digit_not_sign: "is_digit_py c \<Longrightarrow> c \<noteq> CHR ''+'' \<and> c \<noteq> CHR ''-''"
  by (auto simp: is_digit_py_def is_digit_def)

lemma list_all_digit_py: "list_all is_digit s \<Longrightarrow> list_all is_digit_py s"
  by (auto simp: list_all_iff is_digit_py_digit)

lemma zfill_digits4: "length b = 4 \<Longrightarrow> list_all is_digit_py b \<Longrightarrow> zfill 6 b = ''00'' @ b"
  by (cases b) (auto simp: zfill_def rjust_def digit_not_sign numeral_2_eq_2)



lemma take4_drop2_digits:
  "list_all is_digit (take 6 s) \<Longrightarrow> list_all is_digit (take 4 (drop 2 s))"
proof -
  assume d: "list_all is_digit (take 6 s)"
  have "take 4 (drop 2 s) = drop 2 (take 6 s)" by (simp add: drop_take)
  then have "set (take 4 (drop 2 s)) \<subseteq> set (take 6 s)" by (simp add: set_drop_subset)
  then show ?thesis using d by (auto simp: list_all_iff)
qed

lemma coerce_plu6_rule:
  "coerce_plu6 it =
     (let cref = strip (str_or_empty (ci it [''CREF'']));
          ccb = strip (str_or_empty (ci it [''CCODEBAR'']))
      in if length cref = 4 \<and> list_all is_digit_py cref then Some (''00'' @ cref)
         else if length ccb \<ge> 6 \<and> list_all is_digit (take 6 ccb)
              then Some (''00'' @ take 4 (drop 2 ccb))
              else None)"
proof -
  define cref where "cref = strip (str_or_empty (ci it [''CREF'']))"
  define ccb where "ccb = strip (str_or_empty (ci it [''CCODEBAR'']))"
  have unf: "coerce_plu6 it =
     (case (if length cref = 4 \<and> isdigit cref then Some cref
            else if length ccb \<ge> 6 \<and> list_all is_digit (take 6 ccb)
                 then Some (take 4 (drop 2 ccb)) else None) of
        None \<Rightarrow> None | Some b \<Rightarrow> if b = [] then None else Some (zfill 6 b))"
    by (simp add: coerce_plu6_def Let_def cref_def ccb_def)
  show ?thesis
  proof (cases "length cref = 4 \<and> list_all is_digit_py cref")
    case True
    then have "isdigit cref" "cref \<noteq> []" by (auto simp: isdigit_def)
    then show ?thesis using True unfolding unf
      by (simp add: zfill_digits4 Let_def cref_def [symmetric] ccb_def [symmetric])
  next
    case False
    then have nd: "\<not> (length cref = 4 \<and> isdigit cref)" by (auto simp: isdigit_def)
    show ?thesis
    proof (cases "length ccb \<ge> 6 \<and> list_all is_digit (take 6 ccb)")
      case True
      then have d: "list_all is_digit (take 4 (drop 2 ccb))" by (simp add: take4_drop2_digits)
      have l: "length (take 4 (drop 2 ccb)) = 4" using True by auto
      then have ne: "take 4 (drop 2 ccb) \<noteq> []" by (metis length_0_conv zero_neq_numeral)
      show ?thesis using True False nd unfolding unf
        by (simp only: if_False if_True option.case ne zfill_digits4 [OF l list_all_digit_py [OF d]] Let_def
              cref_def [symmetric] ccb_def [symmetric] simp_thms)
    next
      case b: False
      show ?thesis using b False nd unfolding unf
        by (simp only: if_False option.case Let_def cref_def [symmetric] ccb_def [symmetric] simp_thms)
    qed
  qed
qed











subsection \<open>Field lengths of the 2005 record\<close>

lemma str_nat_length: "0 < w \<Longrightarrow> n < 10 ^ w \<Longrightarrow> length (str_nat n) \<le> w"
proof (induction n arbitrary: w rule: str_nat.induct)
  case (1 n)
  show ?case
  proof (cases "n < 10")
    case True
    then show ?thesis using "1.prems" by (subst str_nat.simps) simp
  next
    case False
    then have w2: "1 < w" using "1.prems"
      by (cases "w = 1") auto
    have "n div 10 < 10 ^ (w - 1)"
    proof -
      have "n < 10 * 10 ^ (w - 1)" using "1.prems" w2 by (cases w) simp_all
      then show ?thesis by (simp add: less_mult_imp_div_less mult.commute)
    qed
    then have "length (str_nat (n div 10)) \<le> w - 1"
      using "1.IH" [OF False, of "w - 1"] w2 by simp
    then show ?thesis using False w2 by (subst str_nat.simps) simp
  qed
qed

lemma str_nat_nonempty: "str_nat n \<noteq> []"
  by (subst str_nat.simps) simp

lemma str_nat_small: "n < 10 \<Longrightarrow> length (str_nat n) = 1"
  by (subst str_nat.simps) simp

lemma length_pad_num_w: "0 < w \<Longrightarrow> length (pad_num_w n w) = max w (length (str_int n))"
  by (simp add: pad_num_w_def length_rjust)

lemma length_pad_num_w_digit: "0 < w \<Longrightarrow> 0 \<le> n \<Longrightarrow> n < 10 \<Longrightarrow> length (pad_num_w n w) = w"
  by (simp add: length_pad_num_w str_int_def str_nat_small)

lemma length_pad_txt_w: "length (pad_txt_w s w) = w"
  by (simp add: pad_txt_w_def length_ljust)

lemma length_pad_txt: "length (pad_txt s w) = w"
  by (simp add: pad_txt_def length_ljust)

lemma clamp_pad_length:
  assumes "0 < w" "0 \<le> c" "c \<le> 10 ^ w - 1"
  shows "length (rjust w (CHR ''0'') (str_int c)) = w"
proof -
  have "nat c < 10 ^ w"
  proof -
    have "c < 10 ^ w" using assms(3) by simp
    then have "nat c < nat (10 ^ w)" using assms(2) by simp
    then show ?thesis by (simp add: nat_power_eq)
  qed
  then have "length (str_nat (nat c)) \<le> w" using assms(1) by (simp add: str_nat_length)
  then show ?thesis using assms(2) by (simp add: length_rjust str_int_def)
qed

lemma price_to_width_Inr:
  assumes "price_to_width v w = Inr p" "w \<noteq> 0"
  shows "\<exists>c0. p = rjust w (CHR ''0'')
                 (str_int (if 10 ^ w - 1 < (if c0 < 0 then 0 else c0)
                           then 10 ^ w - 1 else (if c0 < 0 then 0 else c0)))"
proof -
  define s where "s = replace_comma (strip (py_str v))"
  define caught where "caught =
     (case (if s \<noteq> [] \<and> \<not> isdigit s then decimal_cents s
            else if s = [] then Inr 0
            else (case py_int s of None \<Rightarrow> Inl ValueError | Some n \<Rightarrow> Inr n)) of
        Inl x \<Rightarrow> if x = InvalidOperation \<or> x = ValueError then Inr 0 else Inl x
      | Inr c \<Rightarrow> Inr c)"
  have nr: "\<not> str_raises v" using assms by (auto simp: price_to_width_def)
  have e: "price_to_width v w =
      (case caught of
         Inl x \<Rightarrow> Inl x
       | Inr cents0 \<Rightarrow>
           Inr (rjust w (CHR ''0'')
                 (str_int (if 10 ^ w - 1 < (if cents0 < 0 then 0 else cents0)
                           then 10 ^ w - 1 else (if cents0 < 0 then 0 else cents0)))))"
    using assms(2) nr by (simp add: price_to_width_def Let_def s_def caught_def)
  show ?thesis
  proof (cases caught)
    case (Inl x)
    then show ?thesis using assms(1) e by simp
  next
    case (Inr c0)
    then show ?thesis using assms(1) e by auto
  qed
qed

lemma price_to_width_length: "price_to_width v w = Inr p \<Longrightarrow> length p = w"
proof (cases "w = 0")
  case True
  assume "price_to_width v w = Inr p"
  then show ?thesis using True by (simp add: price_to_width_def)
next
  case False
  assume a: "price_to_width v w = Inr p"
  have pos: "(0::int) \<le> 10 ^ w - 1" by simp
  from price_to_width_Inr [OF a False] obtain c0 where
    p: "p = rjust w (CHR ''0'') (str_int (if 10 ^ w - 1 < (if c0 < 0 then 0 else c0) then 10 ^ w - 1
                                           else (if c0 < 0 then 0 else c0)))"
    by blast
  have "length (rjust w (CHR ''0'') (str_int (if 10 ^ w - 1 < (if c0 < 0 then 0 else c0) then 10 ^ w - 1
                                           else (if c0 < 0 then 0 else c0)))) = w"
    using False pos by (intro clamp_pad_length) auto
  then show ?thesis unfolding p .
qed

lemma coerce_plu6_length: "coerce_plu6 it = Some p \<Longrightarrow> length p = 6"
  unfolding coerce_plu6_rule Let_def by (auto split: if_splits)

lemma coerce_dep3_length: "coerce_dep3 it = Some d \<Longrightarrow> length d = 3"
  by (auto simp: coerce_dep3_def Let_def length_pad_num_text split: if_splits)

lemma model_widths:
  "MODEL_2005_PLU 3 = 3" "MODEL_2005_PLU 4 = 26" "MODEL_2005_PLU 5 = 26" "MODEL_2005_PLU 6 = 5"
  "MODEL_2005_PLU 7 = 1" "MODEL_2005_PLU 8 = 7" "MODEL_2005_PLU 9 = 6" "MODEL_2005_PLU 10 = 6"
  "MODEL_2005_PLU 11 = 6" "MODEL_2005_PLU 12 = 6" "MODEL_2005_PLU 13 = 6" "MODEL_2005_PLU 14 = 5"
  "MODEL_2005_PLU 15 = 5" "MODEL_2005_PLU 16 = 2" "MODEL_2005_PLU 17 = 4" "MODEL_2005_PLU 18 = 4"
  "MODEL_2005_PLU 19 = 4" "MODEL_2005_PLU 22 = 4"
  by (simp_all add: MODEL_2005_PLU_def)

lemma model_total: "MODEL_2005_TOTAL = 135"
  by (simp add: MODEL_2005_TOTAL_def MODEL_2005_PLU_def upt_rec [of _ "numeral k" for k] upt_rec [of _ "Suc k" for k])

lemma build_Some_shape:
  assumes "build_datos_2005_modelo fl it fam_def dec_prec = Inr (Some datos)"
  shows "\<exists>plu6 dep nom_src precio imp.
           coerce_plu6 it = Some plu6 \<and> coerce_dep3 it = Some dep
         \<and> text_or (ci it [''CDETALLE'', ''descripcion'', ''nombre'']) (''PLU '' @ plu6) = Inr nom_src
         \<and> price_to_width (ci it [''NPVP1'', ''precio'']) 6 = Inr precio
         \<and> imp_from_ctipoiva fl (ci it [''CTIPOIVA'']) = Inr imp
         \<and> datos = plu6 @ dep @ pad_num_w (familia_num fam_def) 3 @ pad_txt_w nom_src 26
                  @ pad_txt_w [] 26
                  @ (if length (''0'' @ last_n 4 plu6) \<noteq> 5
                     then rjust 5 (CHR ''0'') (last_n 5 (''0'' @ last_n 4 plu6))
                     else ''0'' @ last_n 4 plu6)
                  @ ljust 1 (CHR '' '') (take 1 (if tipo_from_cvencom (ci it [''CVENCOM'']) = [] then ''P''
                                                 else tipo_from_cvencom (ci it [''CVENCOM''])))
                  @ pad_num_w 0 7 @ precio @ pad_num_w 0 6 @ pad_num_w 0 6
                  @ rjust 6 (CHR ''0'') (last_n 6 imp)
                  @ pad_num_w 0 6 @ pad_num_w 0 5 @ pad_num_w 0 5 @ pad_num_w 1 2
                  @ pad_num_w 0 4 @ pad_num_w 0 4 @ pad_num_w 0 4
                  @ pad_num_w (max 0 (min 2 dec_prec)) 4"
  using assms unfolding build_datos_2005_modelo_def Let_def model_widths
  by (auto split: option.splits sum.splits if_splits)

lemma length_cod5:
  "length (if length x \<noteq> 5 then rjust 5 (CHR ''0'') (last_n 5 x) else x) = 5"
  by (simp add: length_rjust max_absorb1 length_last_n)

lemma length_tipo: "length (ljust 1 (CHR '' '') (take 1 x)) = 1"
  by (simp add: length_ljust)

lemma length_imp1: "length (rjust 6 (CHR ''0'') (last_n 6 x)) = 6"
  by (simp add: length_rjust max_absorb1 length_last_n)

lemma build_length:
  assumes b: "build_datos_2005_modelo fl it fam_def dec_prec = Inr (Some datos)"
      and f: "length (str_int (familia_num fam_def)) \<le> 3"
  shows "length datos = 135"
proof -
  from build_Some_shape [OF b] obtain plu6 dep nom_src precio imp where
    p: "coerce_plu6 it = Some plu6" and d: "coerce_dep3 it = Some dep" and
    pr: "price_to_width (ci it [''NPVP1'', ''precio'']) 6 = Inr precio" and
    sh: "datos = plu6 @ dep @ pad_num_w (familia_num fam_def) 3 @ pad_txt_w nom_src 26
                  @ pad_txt_w [] 26
                  @ (if length (''0'' @ last_n 4 plu6) \<noteq> 5
                     then rjust 5 (CHR ''0'') (last_n 5 (''0'' @ last_n 4 plu6))
                     else ''0'' @ last_n 4 plu6)
                  @ ljust 1 (CHR '' '') (take 1 (if tipo_from_cvencom (ci it [''CVENCOM'']) = [] then ''P''
                                                 else tipo_from_cvencom (ci it [''CVENCOM''])))
                  @ pad_num_w 0 7 @ precio @ pad_num_w 0 6 @ pad_num_w 0 6
                  @ rjust 6 (CHR ''0'') (last_n 6 imp)
                  @ pad_num_w 0 6 @ pad_num_w 0 5 @ pad_num_w 0 5 @ pad_num_w 1 2
                  @ pad_num_w 0 4 @ pad_num_w 0 4 @ pad_num_w 0 4
                  @ pad_num_w (max 0 (min 2 dec_prec)) 4"
    by blast
  have l1: "length plu6 = 6" using p by (rule coerce_plu6_length)
  have l2: "length dep = 3" using d by (rule coerce_dep3_length)
  have l3: "length (pad_num_w (familia_num fam_def) 3) = 3"
    using f by (simp add: length_pad_num_w max_absorb1)
  have l9: "length precio = 6" using pr by (rule price_to_width_length)
  have l22: "length (pad_num_w (max 0 (min 2 dec_prec)) 4) = 4"
    by (intro length_pad_num_w_digit) auto
  have z: "\<And>w. 0 < w \<Longrightarrow> length (pad_num_w 0 w) = w" "length (pad_num_w 1 2) = 2"
    by (simp_all add: length_pad_num_w_digit)
  show ?thesis
    unfolding sh length_append l1 l2 l3 l9 l22 length_pad_txt_w length_cod5 length_tipo length_imp1
    by (simp add: z length_rjust max_absorb1 length_last_n)
qed


subsection \<open>The batch loop\<close>

lemma plu_lines_valid:
  "plu_lines fl eq fam items = Inr (ls, evs) \<Longrightarrow>
   \<forall>l\<in>set ls. \<exists>d. l = mk_info_line eq CMD_ALTA_PLU d \<and> length d = 135"
proof (induction items arbitrary: ls evs)
  case Nil
  then show ?case by simp
next
  case (Cons it items)
  from Cons.prems obtain r ls' evs' where
    b: "build_datos_2005_modelo fl it fam 1 = Inr r" and
    t: "plu_lines fl eq fam items = Inr (ls', evs')"
    by (auto split: sum.splits)
  have ih: "\<forall>l\<in>set ls'. \<exists>d. l = mk_info_line eq CMD_ALTA_PLU d \<and> length d = 135"
    using Cons.IH [OF t] .
  show ?case
  proof (cases r)
    case None
    then have "ls = ls'" using Cons.prems b t by simp
    then show ?thesis using ih by simp
  next
    case (Some datos)
    show ?thesis
    proof (cases "datos \<noteq> [] \<and> valid_2005_data datos")
      case True
      then have "ls = mk_info_line eq CMD_ALTA_PLU datos # ls'"
        using Cons.prems b t Some by simp
      moreover have "length datos = 135" using True by (simp add: valid_2005_data_def model_total)
      ultimately show ?thesis using ih by auto
    next
      case False
      then have "ls = ls'" using Cons.prems b t Some by (auto split: if_splits)
      then show ?thesis using ih by simp
    qed
  qed
qed

lemma plu_lines_skip_len:
  assumes "build_datos_2005_modelo fl it fam 1 = Inr (Some datos)" "datos \<noteq> []"
      "length datos \<noteq> 135" "plu_lines fl eq fam items = Inr (ls, evs)"
  shows "plu_lines fl eq fam (it # items) = Inr (ls, SkipLen (length datos) # evs)"
  using assms by (simp add: valid_2005_data_def model_total)



subsection \<open>Evaluation rules for concrete inputs\<close>

lemma char_of_digit:
  "char_of (48::nat) = CHR ''0''" "char_of (49::nat) = CHR ''1''" "char_of (50::nat) = CHR ''2''"
  "char_of (51::nat) = CHR ''3''" "char_of (52::nat) = CHR ''4''" "char_of (53::nat) = CHR ''5''"
  "char_of (54::nat) = CHR ''6''" "char_of (55::nat) = CHR ''7''" "char_of (56::nat) = CHR ''8''"
  "char_of (57::nat) = CHR ''9''"
proof -
  have e: "\<And>c n. of_char c = (n::nat) \<Longrightarrow> char_of n = c" by auto
  show "char_of (48::nat) = CHR ''0''" by (rule e) simp
  show "char_of (49::nat) = CHR ''1''" by (rule e) simp
  show "char_of (50::nat) = CHR ''2''" by (rule e) simp
  show "char_of (51::nat) = CHR ''3''" by (rule e) simp
  show "char_of (52::nat) = CHR ''4''" by (rule e) simp
  show "char_of (53::nat) = CHR ''5''" by (rule e) simp
  show "char_of (54::nat) = CHR ''6''" by (rule e) simp
  show "char_of (55::nat) = CHR ''7''" by (rule e) simp
  show "char_of (56::nat) = CHR ''8''" by (rule e) simp
  show "char_of (57::nat) = CHR ''9''" by (rule e) simp
qed

lemma str_nat_numeral:
  "str_nat (numeral k) =
     (if (numeral k :: nat) < 10 then [digit_char (numeral k)]
      else str_nat (numeral k div 10) @ [digit_char (numeral k mod 10)])"
  by (rule str_nat.simps)

lemma digit_char_0_1: "digit_char 0 = CHR ''0''" "digit_char 1 = CHR ''1''"
  "digit_char (Suc 0) = CHR ''1''"
proof -
  have e: "\<And>c n. of_char c = (n::nat) \<Longrightarrow> char_of n = c" by auto
  show "digit_char 0 = CHR ''0''" unfolding digit_char_def by (rule e) simp
  show "digit_char 1 = CHR ''1''" unfolding digit_char_def by (rule e) simp
  show "digit_char (Suc 0) = CHR ''1''" unfolding digit_char_def by (rule e) simp
qed

lemma str_nat_0_1: "str_nat 0 = ''0''" "str_nat 1 = ''1''" "str_nat (Suc 0) = ''1''"
  by (subst str_nat.simps, simp add: digit_char_0_1)+

lemmas eval_str = str_nat_numeral str_nat_0_1 digit_char_0_1 digit_char_def char_of_digit str_int_def

lemma replicate_num: "replicate (numeral k) x = x # replicate (numeral k - 1) x"
  by (simp add: numeral_eq_Suc)

lemmas eval_txt = strip_def is_space_def strip_int_def is_space_int_def isdigit_def is_digit_py_def is_digit_def only_digits_def
  join_isdigit_def rjust_def ljust_def last_n_def nat_of_digits_def digit_val_def str_or_empty_def
  replace_comma_def replicate_num str_raises_def MAX_STR_DIGITS_def

lemmas eval_ci = ci.simps lower_def lower_char_def

lemmas eval_dec = parse_decimal_def split_sign_def is_exp_mark_def parse_exponent_def
  decimal_cents_def ndigits_def PREC_def EMAX_def MAX_EMAX_def MIN_ETINY_def round_half_even_def
  py_int_def int_literal_def

lemma price_19_5_width6: "price_to_width (PStr ''19.5'') 6 = Inr ''001950''"
  by (simp add: price_to_width_def eval_txt eval_dec eval_str Let_def)


lemmas eval_build = build_datos_2005_modelo_def coerce_plu6_def coerce_dep3_def digits_of_def
  zfill_def text_or_def tipo_from_cvencom_def upper_def upper_char_def imp_from_ctipoiva_def
  pad_num_adapter_def pad_num_text_def pad_num_w_def pad_txt_w_def familia_num_def
  price_to_width_def model_widths

lemma build_long_name_example: "build_datos_2005_modelo (\<lambda>s. Cents 2100)
     [(''CREF'', PStr ''1017''), (''CDETALLE'', PStr ''ABCDEFGHIJKLMNOPQRSTUVWXYZ0123''),
      (''CGRPCONTA'', PStr ''005''), (''NPVP1'', PStr ''19.5''), (''CTIPOIVA'', PStr ''21'')]
     (PInt 0) 1 =
   Inr (Some ''001017005000ABCDEFGHIJKLMNOPQRSTUVWXYZ                          01017P00000000019500000000000000021000000000000000000010000000000000001'')"
  by (simp add: eval_build eval_txt eval_ci eval_dec eval_str Let_def)


subsection \<open>Record length and the batch senders\<close>

lemma enviar_plus_valid:
  "enviar_plus fl eq items fam = Inr (Some batch, evs) \<Longrightarrow>
   \<forall>l\<in>set batch. \<exists>d. l = mk_info_line eq CMD_ALTA_PLU d \<and> length d = 135"
  by (auto simp: enviar_plus_def split: sum.splits prod.splits if_splits dest: plu_lines_valid)

lemma enviar_dptos_y_articulos_valid:
  "enviar_dptos_y_articulos fl eq deptos items fam = Inr (batch, evs) \<Longrightarrow>
   \<exists>dl pl. batch = dl @ pl \<and> depto_lines eq deptos = Inr dl
         \<and> (\<forall>l\<in>set pl. \<exists>d. l = mk_info_line eq CMD_ALTA_PLU d \<and> length d = 135)"
  by (auto simp: enviar_dptos_y_articulos_def split: sum.splits prod.splits dest: plu_lines_valid)

text \<open>
  Claim C4. Whenever \<open>_build_datos_2005_modelo\<close> returns a record for a family default
  whose number fits the 3-character family field, the record is exactly 135 characters
  long (an oversized name is cut to its 26-character field). The batch senders
  \<open>enviar_plus\<close> and \<open>enviar_dptos_y_articulos\<close> put a 2005 line into the outgoing batch
  only for a record of length 135; an item whose record has another length is skipped
  and reported with that length.
\<close>

theorem record_2005_length:
  "(build_datos_2005_modelo fl it fam_def dec_prec = Inr (Some datos)
      \<and> length (str_int (familia_num fam_def)) \<le> 3 \<longrightarrow> length datos = 135)
   \<and> (enviar_plus fl eq items fam = Inr (Some batch, evs) \<longrightarrow>
        (\<forall>l\<in>set batch. \<exists>d. l = mk_info_line eq CMD_ALTA_PLU d \<and> length d = 135))
   \<and> (enviar_dptos_y_articulos fl eq deptos items fam = Inr (dbatch, devs) \<longrightarrow>
        (\<exists>dl pl. dbatch = dl @ pl \<and> depto_lines eq deptos = Inr dl
           \<and> (\<forall>l\<in>set pl. \<exists>d. l = mk_info_line eq CMD_ALTA_PLU d \<and> length d = 135)))
   \<and> (build_datos_2005_modelo fl it fam 1 = Inr (Some datos') \<and> datos' \<noteq> []
        \<and> length datos' \<noteq> 135 \<and> plu_lines fl eq fam items = Inr (ls, levs) \<longrightarrow>
        plu_lines fl eq fam (it # items) = Inr (ls, SkipLen (length datos') # levs))"
  using build_length [of fl it fam_def dec_prec datos]
    enviar_plus_valid [of fl eq items fam batch evs]
    enviar_dptos_y_articulos_valid [of fl eq deptos items fam dbatch devs]
    plu_lines_skip_len [of fl it fam datos' eq items ls levs]
  by blast

lemma build_oversized_family:
  "build_datos_2005_modelo (\<lambda>s. Cents 2100)
     [(''CREF'', PStr ''1017''), (''CDETALLE'', PStr ''ABCDEFGHIJKLMNOPQRSTUVWXYZ0123''),
      (''CGRPCONTA'', PStr ''005''), (''NPVP1'', PStr ''19.5''), (''CTIPOIVA'', PStr ''21'')]
     (PInt 1000) 1 =
   Inr (Some ''0010170051000ABCDEFGHIJKLMNOPQRSTUVWXYZ                          01017P00000000019500000000000000021000000000000000000010000000000000001'')"
  by (simp add: eval_build eval_txt eval_ci eval_dec eval_str Let_def)

lemma familia_num_0: "familia_num (PInt 0) = 0"
  by (simp add: familia_num_def py_int_def int_literal_def eval_txt eval_str split_sign_def Let_def)

lemma mk_info_line_1:
  "mk_info_line \<lparr>eq_nombre = ''B1'', eq_ip = ''10.0.0.1'', eq_puerto = 1001, id_equipo = 1, idioma = ''00''\<rparr> c d = ''C01'' @ c @ d"
  by (simp add: mk_info_line_def TIPO_EQUIPO_def pad_num_text_def eval_txt eval_str)

theorem record_2005_length_witness:
  "(\<exists>datos. build_datos_2005_modelo (\<lambda>s. Cents 2100)
        [(''CREF'', PStr ''1017''), (''CDETALLE'', PStr ''ABCDEFGHIJKLMNOPQRSTUVWXYZ0123''),
      (''CGRPCONTA'', PStr ''005''), (''NPVP1'', PStr ''19.5''), (''CTIPOIVA'', PStr ''21'')]
        (PInt 0) 1 = Inr (Some datos)
      \<and> length datos = 135 \<and> take 26 (drop 12 datos) = ''ABCDEFGHIJKLMNOPQRSTUVWXYZ''
      \<and> enviar_plus (\<lambda>s. Cents 2100) \<lparr>eq_nombre = ''B1'', eq_ip = ''10.0.0.1'', eq_puerto = 1001, id_equipo = 1, idioma = ''00''\<rparr>
           [[(''CREF'', PStr ''1017''), (''CDETALLE'', PStr ''ABCDEFGHIJKLMNOPQRSTUVWXYZ0123''),
      (''CGRPCONTA'', PStr ''005''), (''NPVP1'', PStr ''19.5''), (''CTIPOIVA'', PStr ''21'')]] (PInt 0) = Inr (Some [''C012005'' @ datos], []))
   \<and> plu_lines (\<lambda>s. Cents 2100) \<lparr>eq_nombre = ''B1'', eq_ip = ''10.0.0.1'', eq_puerto = 1001, id_equipo = 1, idioma = ''00''\<rparr> (PInt 1000)
        [[(''CREF'', PStr ''1017''), (''CDETALLE'', PStr ''ABCDEFGHIJKLMNOPQRSTUVWXYZ0123''),
      (''CGRPCONTA'', PStr ''005''), (''NPVP1'', PStr ''19.5''), (''CTIPOIVA'', PStr ''21'')]] = Inr ([], [SkipLen 136])"
proof -
  let ?fl = "\<lambda>s::string. Cents 2100"
  let ?row = "[(''CREF'', PStr ''1017''), (''CDETALLE'', PStr ''ABCDEFGHIJKLMNOPQRSTUVWXYZ0123''),
      (''CGRPCONTA'', PStr ''005''), (''NPVP1'', PStr ''19.5''), (''CTIPOIVA'', PStr ''21'')]"
  let ?eq = "\<lparr>eq_nombre = ''B1'', eq_ip = ''10.0.0.1'', eq_puerto = 1001, id_equipo = 1, idioma = ''00''\<rparr>"
  let ?d = "''001017005000ABCDEFGHIJKLMNOPQRSTUVWXYZ                          01017P00000000019500000000000000021000000000000000000010000000000000001''"
  let ?d' = "''0010170051000ABCDEFGHIJKLMNOPQRSTUVWXYZ                          01017P00000000019500000000000000021000000000000000000010000000000000001''"
  have b: "build_datos_2005_modelo ?fl ?row (PInt 0) 1 = Inr (Some ?d)" by (rule build_long_name_example)
  have b': "build_datos_2005_modelo ?fl ?row (PInt 1000) 1 = Inr (Some ?d')"
    by (rule build_oversized_family)
  have f: "length (str_int (familia_num (PInt 0))) \<le> 3" by (simp add: familia_num_0 eval_str)
  have e: "plu_lines ?fl ?eq (PInt 1000) [] = Inr ([], [])" by simp
  have l': "length ?d' = 136" by simp
  note T = record_2005_length [where fl = ?fl and it = ?row and fam_def = "PInt 0"
      and dec_prec = 1 and datos = ?d and eq = ?eq and items = "[]" and fam = "PInt 1000"
      and datos' = ?d' and ls = "[]" and levs = "[]"]
  have len: "length ?d = 135" using T b f by blast
  have skip: "plu_lines ?fl ?eq (PInt 1000) [?row] = Inr ([], [SkipLen (length ?d')])"
    using T b' e l' by force
  have v: "valid_2005_data ?d" using len by (simp only: valid_2005_data_def model_total)
  have ne: "?d \<noteq> []" by simp
  have pl: "plu_lines ?fl ?eq (PInt 0) [?row] = Inr ([mk_info_line ?eq CMD_ALTA_PLU ?d], [])"
    by (simp only: plu_lines.simps b sum.case option.case prod.case v ne if_False if_True simp_thms)
  have ep: "enviar_plus ?fl ?eq [?row] (PInt 0) = Inr (Some [''C012005'' @ ?d], [])"
    unfolding enviar_plus_def pl by (simp add: mk_info_line_1 CMD_ALTA_PLU_def)
  have nm: "take 26 (drop 12 ?d) = ''ABCDEFGHIJKLMNOPQRSTUVWXYZ''" by simp
  show ?thesis
    using b len nm ep skip l' by (intro conjI exI [of _ ?d]) (simp_all only: )
qed


subsection \<open>Decimal arithmetic within the working precision\<close>










subsection \<open>Price conversion\<close>




























subsection \<open>The combined send workflow\<close>























subsection \<open>Replacing the relations of an equipment\<close>

lemma set_codigos_validos:
  "set (codigos_validos s codigos) = set codigos \<inter> fst ` set (GRP_VENT s)"
  by (auto simp: codigos_validos_def)

lemma distinct_codigos_validos: "distinct (codigos_validos s codigos)"
  by (simp add: codigos_validos_def)

lemma delete_bala_dptos_simps:
  "GRP_VENT (delete_bala_dptos eid s) = GRP_VENT s"
  "BALA_EQUIPOS (delete_bala_dptos eid s) = BALA_EQUIPOS s"
  "BALA_DPTOS (delete_bala_dptos eid s) = filter (\<lambda>r. fst r \<noteq> eid) (BALA_DPTOS s)"
  by (simp_all add: delete_bala_dptos_def)

lemma insert_bala_dptos_keeps:
  "GRP_VENT (insert_bala_dptos eid c s) = GRP_VENT s"
  "BALA_EQUIPOS (insert_bala_dptos eid c s) = BALA_EQUIPOS s"
  by (simp_all add: insert_bala_dptos_def)

lemma fold_insert_keeps:
  "GRP_VENT (fold (insert_bala_dptos eid) vs s) = GRP_VENT s
   \<and> BALA_EQUIPOS (fold (insert_bala_dptos eid) vs s) = BALA_EQUIPOS s"
  by (induction vs arbitrary: s) (simp_all add: insert_bala_dptos_keeps)

lemma set_insert_bala_dptos:
  assumes "eid \<in> r_id ` set (BALA_EQUIPOS s)" and "c \<in> fst ` set (GRP_VENT s)"
  shows "set (BALA_DPTOS (insert_bala_dptos eid c s)) = insert (eid, c) (set (BALA_DPTOS s))"
  using assms by (auto simp: insert_bala_dptos_def)

lemma set_fold_insert:
  assumes "eid \<in> r_id ` set (BALA_EQUIPOS s)" and "set vs \<subseteq> fst ` set (GRP_VENT s)"
  shows "set (BALA_DPTOS (fold (insert_bala_dptos eid) vs s))
         = set (BALA_DPTOS s) \<union> {(eid, c) | c. c \<in> set vs}"
  using assms
proof (induction vs arbitrary: s)
  case Nil
  then show ?case by simp
next
  case (Cons v vs)
  let ?s = "insert_bala_dptos eid v s"
  have e: "eid \<in> r_id ` set (BALA_EQUIPOS ?s)" using Cons.prems(1) by (simp add: insert_bala_dptos_keeps)
  have m: "set vs \<subseteq> fst ` set (GRP_VENT ?s)" using Cons.prems(2) by (simp add: insert_bala_dptos_keeps)
  have v: "v \<in> fst ` set (GRP_VENT s)" using Cons.prems(2) by simp
  have "set (BALA_DPTOS (fold (insert_bala_dptos eid) vs ?s))
        = set (BALA_DPTOS ?s) \<union> {(eid, c) | c. c \<in> set vs}"
    by (rule Cons.IH [OF e m])
  also have "set (BALA_DPTOS ?s) = insert (eid, v) (set (BALA_DPTOS s))"
    by (rule set_insert_bala_dptos [OF Cons.prems(1) v])
  finally show ?case by auto
qed

text \<open>The primary key: a store whose relation rows are distinct keeps them distinct.\<close>

lemma distinct_fold_insert:
  "distinct (BALA_DPTOS s) \<Longrightarrow> distinct (BALA_DPTOS (fold (insert_bala_dptos eid) vs s))"
proof (induction vs arbitrary: s)
  case Nil
  then show ?case by simp
next
  case (Cons v vs)
  have "distinct (BALA_DPTOS (insert_bala_dptos eid v s))"
    using Cons.prems by (simp add: insert_bala_dptos_def)
  then show ?case using Cons.IH by simp
qed

lemma reemplazar_invalidos:
  "fst (reemplazar_relaciones eid codigos s) = filter (\<lambda>c. c \<notin> fst ` set (GRP_VENT s)) codigos"
proof -
  have "filter (\<lambda>c. c \<notin> set (codigos_validos (delete_bala_dptos eid s) codigos)) codigos
        = filter (\<lambda>c. c \<notin> fst ` set (GRP_VENT s)) codigos"
    by (rule filter_cong) (simp_all add: set_codigos_validos delete_bala_dptos_simps)
  then show ?thesis by (simp add: reemplazar_relaciones_def Let_def)
qed

lemma reemplazar_rows:
  assumes "eid \<in> r_id ` set (BALA_EQUIPOS s)"
  shows "set (BALA_DPTOS (snd (reemplazar_relaciones eid codigos s)))
         = {r \<in> set (BALA_DPTOS s). fst r \<noteq> eid}
           \<union> {(eid, c) | c. c \<in> set codigos \<and> c \<in> fst ` set (GRP_VENT s)}"
proof -
  let ?s1 = "delete_bala_dptos eid s"
  let ?vs = "codigos_validos ?s1 codigos"
  have e: "eid \<in> r_id ` set (BALA_EQUIPOS ?s1)" using assms by (simp add: delete_bala_dptos_simps)
  have m: "set ?vs \<subseteq> fst ` set (GRP_VENT ?s1)" by (simp add: set_codigos_validos)
  have "set (BALA_DPTOS (fold (insert_bala_dptos eid) ?vs ?s1))
        = set (BALA_DPTOS ?s1) \<union> {(eid, c) | c. c \<in> set ?vs}"
    by (rule set_fold_insert [OF e m])
  moreover have "set (BALA_DPTOS ?s1) = {r \<in> set (BALA_DPTOS s). fst r \<noteq> eid}"
    by (auto simp: delete_bala_dptos_simps)
  moreover have "{(eid, c) | c. c \<in> set ?vs}
                 = {(eid, c) | c. c \<in> set codigos \<and> c \<in> fst ` set (GRP_VENT s)}"
    by (auto simp: set_codigos_validos delete_bala_dptos_simps)
  ultimately show ?thesis by (simp add: reemplazar_relaciones_def Let_def)
qed

lemma reemplazar_keeps:
  "GRP_VENT (snd (reemplazar_relaciones eid codigos s)) = GRP_VENT s"
  "BALA_EQUIPOS (snd (reemplazar_relaciones eid codigos s)) = BALA_EQUIPOS s"
  by (simp_all add: reemplazar_relaciones_def Let_def fold_insert_keeps delete_bala_dptos_simps)

lemma reemplazar_distinct:
  "distinct (BALA_DPTOS s) \<Longrightarrow> distinct (BALA_DPTOS (snd (reemplazar_relaciones eid codigos s)))"
  by (simp add: reemplazar_relaciones_def Let_def distinct_fold_insert delete_bala_dptos_simps)

lemma rs_store_refresh: "rs_store (refresh r) = rs_store r"
  by (simp add: refresh_def)

lemma relaciones_o_error_store:
  "rs_store (snd (relaciones_o_error eid cs s r)) = snd (reemplazar_relaciones eid (or_empty cs) s)"
  by (simp add: relaciones_o_error_def rs_store_refresh split: prod.splits)

lemma relaciones_o_error_result:
  "fst (relaciones_o_error eid cs s r)
   = (let inv = fst (reemplazar_relaciones eid (or_empty cs) s)
      in if inv \<noteq> [] then Inl (DeptosInexistentes inv) else Inr ())"
  by (simp add: relaciones_o_error_def Let_def split: prod.splits)

lemma relaciones_o_error_cache:
  "fst (reemplazar_relaciones eid (or_empty cs) s) \<noteq> []
   \<Longrightarrow> rs_equipos (snd (relaciones_o_error eid cs s r)) = rs_equipos r"
  by (cases "reemplazar_relaciones eid (or_empty cs) s") (simp add: relaciones_o_error_def)

lemma eq_actualizar_keeps:
  "GRP_VENT (eq_actualizar eid n i p a s) = GRP_VENT s"
  "BALA_DPTOS (eq_actualizar eid n i p a s) = BALA_DPTOS s"
  by (simp_all add: eq_actualizar_def)

lemma eq_actualizar_ids:
  "map r_id (BALA_EQUIPOS (eq_actualizar eid n i p a s)) = map r_id (BALA_EQUIPOS s)"
  by (simp add: eq_actualizar_def o_def if_distrib [of r_id] cong: if_cong)

lemma eq_insertar_keeps:
  "GRP_VENT (eq_insertar nid n i p a s) = GRP_VENT s"
  "BALA_DPTOS (eq_insertar nid n i p a s) = BALA_DPTOS s"
  by (simp_all add: eq_insertar_def)

lemma eq_listar_id:
  assumes "0 \<le> idx" and "idx < int (length (eq_listar s))"
  shows "r_id (eq_listar s ! nat idx) \<in> r_id ` set (BALA_EQUIPOS s)"
proof -
  have "eq_listar s ! nat idx \<in> set (eq_listar s)" using assms by (intro nth_mem) simp
  then have "eq_listar s ! nat idx \<in> set (sort_key r_id (BALA_EQUIPOS s))"
    unfolding eq_listar_def by (rule in_set_takeD)
  then show ?thesis by simp
qed

lemma get_id_exists:
  assumes "get_id_por_nombre_ip n i s = Some eid"
  shows "eid \<in> r_id ` set (BALA_EQUIPOS s)"
proof -
  let ?l = "rev (sort_key r_id (filter (\<lambda>r. r_nombre r = n \<and> r_ip r = i) (BALA_EQUIPOS s)))"
  obtain r rest where l: "?l = r # rest" and e: "eid = r_id r"
    using assms by (auto simp: get_id_por_nombre_ip_def split: list.splits)
  have "r \<in> set ?l" by (simp only: l) simp
  then have "r \<in> set (BALA_EQUIPOS s)" by simp
  then show ?thesis using e by blast
qed


subsection \<open>The facade on invalid department codes\<close>

lemma update_equipo_in_range:
  assumes "0 \<le> idx \<and> idx < int (length (eq_listar (rs_store r)))"
  shows "update_equipo idx nombre ip puerto cs autoreport r
         = relaciones_o_error (r_id (eq_listar (rs_store r) ! nat idx)) cs
             (eq_actualizar (r_id (eq_listar (rs_store r) ! nat idx)) nombre ip puerto autoreport (rs_store r)) r"
  using assms by (simp add: update_equipo_def Let_def)

lemma update_equipo_out_of_range:
  "\<not> (0 \<le> idx \<and> idx < int (length (eq_listar (rs_store r))))
   \<Longrightarrow> update_equipo idx nombre ip puerto cs autoreport r = (Inl IndiceFueraDeRango, r)"
  by (simp add: update_equipo_def Let_def)

lemma add_equipo_with_id:
  assumes "get_id_por_nombre_ip nombre ip (eq_insertar nid nombre ip puerto autoreport (rs_store r)) = Some eid"
  shows "add_equipo nid nombre ip puerto cs autoreport r
         = relaciones_o_error eid cs (eq_insertar nid nombre ip puerto autoreport (rs_store r)) r"
  using assms by (simp add: add_equipo_def Let_def)

lemma relaciones_o_error_rows:
  assumes "eid \<in> r_id ` set (BALA_EQUIPOS s)"
  shows "set (BALA_DPTOS (rs_store (snd (relaciones_o_error eid cs s r))))
         = {x \<in> set (BALA_DPTOS s). fst x \<noteq> eid}
           \<union> {(eid, c) | c. c \<in> set (or_empty cs) \<and> c \<in> fst ` set (GRP_VENT s)}"
  by (simp only: relaciones_o_error_store reemplazar_rows [OF assms])

lemma relaciones_o_error_raises:
  "fst (relaciones_o_error eid cs s r)
   = (if filter (\<lambda>c. c \<notin> fst ` set (GRP_VENT s)) (or_empty cs) \<noteq> []
      then Inl (DeptosInexistentes (filter (\<lambda>c. c \<notin> fst ` set (GRP_VENT s)) (or_empty cs)))
      else Inr ())"
  by (simp add: relaciones_o_error_result reemplazar_invalidos Let_def)

text \<open>
  Claim C7. For the id of an existing equipment and every submitted list of codes,
  \<open>reemplazar_relaciones\<close> leaves as relation rows of that equipment exactly the submitted
  codes that are in the department master, each once, leaves the rows of the other
  equipments alone, and returns the submitted codes that are not in the master, in the
  order submitted; with the empty list the rows of the equipment are deleted, nothing is
  inserted and the result is empty. \<open>update_equipo\<close> (for an index in range) and
  \<open>add_equipo\<close> (when the id of the new row is found) leave the store in that same state and
  raise the error naming the invalid codes exactly when there is one: the rows of the
  valid codes stay committed.
\<close>

theorem replace_relations_partial_success:
  "fst (reemplazar_relaciones eid codigos s) = filter (\<lambda>c. c \<notin> fst ` set (GRP_VENT s)) codigos
   \<and> reemplazar_relaciones eid [] s = ([], s\<lparr>BALA_DPTOS := filter (\<lambda>x. fst x \<noteq> eid) (BALA_DPTOS s)\<rparr>)
   \<and> (eid \<in> r_id ` set (BALA_EQUIPOS s) \<longrightarrow>
        set (BALA_DPTOS (snd (reemplazar_relaciones eid codigos s)))
          = {x \<in> set (BALA_DPTOS s). fst x \<noteq> eid}
            \<union> {(eid, c) | c. c \<in> set codigos \<and> c \<in> fst ` set (GRP_VENT s)}
        \<and> (distinct (BALA_DPTOS s) \<longrightarrow> distinct (BALA_DPTOS (snd (reemplazar_relaciones eid codigos s)))))
   \<and> (0 \<le> idx \<and> idx < int (length (eq_listar (rs_store r))) \<longrightarrow>
        set (BALA_DPTOS (rs_store (snd (update_equipo idx nombre ip puerto cs autoreport r))))
          = {x \<in> set (BALA_DPTOS (rs_store r)). fst x \<noteq> r_id (eq_listar (rs_store r) ! nat idx)}
            \<union> {(r_id (eq_listar (rs_store r) ! nat idx), c) | c.
                 c \<in> set (or_empty cs) \<and> c \<in> fst ` set (GRP_VENT (rs_store r))}
        \<and> fst (update_equipo idx nombre ip puerto cs autoreport r)
          = (if filter (\<lambda>c. c \<notin> fst ` set (GRP_VENT (rs_store r))) (or_empty cs) \<noteq> []
             then Inl (DeptosInexistentes (filter (\<lambda>c. c \<notin> fst ` set (GRP_VENT (rs_store r))) (or_empty cs)))
             else Inr ()))
   \<and> (get_id_por_nombre_ip nombre ip (eq_insertar nid nombre ip puerto autoreport (rs_store r)) = Some nrow \<longrightarrow>
        set (BALA_DPTOS (rs_store (snd (add_equipo nid nombre ip puerto cs autoreport r))))
          = {x \<in> set (BALA_DPTOS (rs_store r)). fst x \<noteq> nrow}
            \<union> {(nrow, c) | c. c \<in> set (or_empty cs) \<and> c \<in> fst ` set (GRP_VENT (rs_store r))}
        \<and> fst (add_equipo nid nombre ip puerto cs autoreport r)
          = (if filter (\<lambda>c. c \<notin> fst ` set (GRP_VENT (rs_store r))) (or_empty cs) \<noteq> []
             then Inl (DeptosInexistentes (filter (\<lambda>c. c \<notin> fst ` set (GRP_VENT (rs_store r))) (or_empty cs)))
             else Inr ()))"
proof (intro conjI impI)
  show "fst (reemplazar_relaciones eid codigos s) = filter (\<lambda>c. c \<notin> fst ` set (GRP_VENT s)) codigos"
    by (rule reemplazar_invalidos)
next
  show "reemplazar_relaciones eid [] s = ([], s\<lparr>BALA_DPTOS := filter (\<lambda>x. fst x \<noteq> eid) (BALA_DPTOS s)\<rparr>)"
    by (simp add: reemplazar_relaciones_def codigos_validos_def delete_bala_dptos_def)
next
  assume "eid \<in> r_id ` set (BALA_EQUIPOS s)"
  then show "set (BALA_DPTOS (snd (reemplazar_relaciones eid codigos s)))
          = {x \<in> set (BALA_DPTOS s). fst x \<noteq> eid}
            \<union> {(eid, c) | c. c \<in> set codigos \<and> c \<in> fst ` set (GRP_VENT s)}"
    by (rule reemplazar_rows)
next
  assume "distinct (BALA_DPTOS s)"
  then show "distinct (BALA_DPTOS (snd (reemplazar_relaciones eid codigos s)))"
    by (rule reemplazar_distinct)
next
  assume a: "0 \<le> idx \<and> idx < int (length (eq_listar (rs_store r)))"
  let ?eid = "r_id (eq_listar (rs_store r) ! nat idx)"
  let ?s1 = "eq_actualizar ?eid nombre ip puerto autoreport (rs_store r)"
  have "?eid \<in> r_id ` set (BALA_EQUIPOS (rs_store r))" using a by (intro eq_listar_id) simp_all
  then have "?eid \<in> set (map r_id (BALA_EQUIPOS ?s1))" by (simp only: eq_actualizar_ids) simp
  then have e: "?eid \<in> r_id ` set (BALA_EQUIPOS ?s1)" by simp
  show "set (BALA_DPTOS (rs_store (snd (update_equipo idx nombre ip puerto cs autoreport r))))
          = {x \<in> set (BALA_DPTOS (rs_store r)). fst x \<noteq> ?eid}
            \<union> {(?eid, c) | c. c \<in> set (or_empty cs) \<and> c \<in> fst ` set (GRP_VENT (rs_store r))}"
    using relaciones_o_error_rows [OF e, of cs r]
    by (simp only: update_equipo_in_range [OF a] eq_actualizar_keeps)
next
  assume a: "0 \<le> idx \<and> idx < int (length (eq_listar (rs_store r)))"
  show "fst (update_equipo idx nombre ip puerto cs autoreport r)
          = (if filter (\<lambda>c. c \<notin> fst ` set (GRP_VENT (rs_store r))) (or_empty cs) \<noteq> []
             then Inl (DeptosInexistentes (filter (\<lambda>c. c \<notin> fst ` set (GRP_VENT (rs_store r))) (or_empty cs)))
             else Inr ())"
    by (simp only: update_equipo_in_range [OF a] relaciones_o_error_raises eq_actualizar_keeps)
next
  assume g: "get_id_por_nombre_ip nombre ip (eq_insertar nid nombre ip puerto autoreport (rs_store r)) = Some nrow"
  let ?s1 = "eq_insertar nid nombre ip puerto autoreport (rs_store r)"
  have e: "nrow \<in> r_id ` set (BALA_EQUIPOS ?s1)" using g by (rule get_id_exists)
  show "set (BALA_DPTOS (rs_store (snd (add_equipo nid nombre ip puerto cs autoreport r))))
          = {x \<in> set (BALA_DPTOS (rs_store r)). fst x \<noteq> nrow}
            \<union> {(nrow, c) | c. c \<in> set (or_empty cs) \<and> c \<in> fst ` set (GRP_VENT (rs_store r))}"
    using relaciones_o_error_rows [OF e, of cs r]
    by (simp only: add_equipo_with_id [OF g] eq_insertar_keeps)
next
  assume g: "get_id_por_nombre_ip nombre ip (eq_insertar nid nombre ip puerto autoreport (rs_store r)) = Some nrow"
  show "fst (add_equipo nid nombre ip puerto cs autoreport r)
          = (if filter (\<lambda>c. c \<notin> fst ` set (GRP_VENT (rs_store r))) (or_empty cs) \<noteq> []
             then Inl (DeptosInexistentes (filter (\<lambda>c. c \<notin> fst ` set (GRP_VENT (rs_store r))) (or_empty cs)))
             else Inr ())"
    by (simp only: add_equipo_with_id [OF g] relaciones_o_error_raises eq_insertar_keeps)
qed

lemmas eval_store = update_equipo_def add_equipo_def eq_listar_def eq_actualizar_def eq_insertar_def
  get_id_por_nombre_ip_def relaciones_o_error_def reemplazar_relaciones_def delete_bala_dptos_def
  insert_bala_dptos_def or_empty_def Let_def

theorem replace_relations_partial_success_witness:
  "fst (update_equipo 0 ''B1'' ''10.0.0.1'' 1001 (Some [''005'', ''999'']) False
          \<lparr>rs_store = \<lparr>GRP_VENT = [(''005'', ''Carnes''), (''007'', ''Pan'')], BALA_EQUIPOS = [\<lparr>r_id = 3, r_nombre = ''B1'', r_ip = ''10.0.0.1'', r_puerto = 1001, r_autoreport = False\<rparr>], BALA_DPTOS = [(3, ''007'')]\<rparr>, rs_departamentos = [(''005'', ''Carnes''), (''007'', ''Pan'')], rs_equipos = [\<lparr>e_id = 3, e_nombre = ''B1'', e_ip = ''10.0.0.1'', e_puerto = 1001, e_deptos = [''007''], e_autoreport = False\<rparr>]\<rparr>)
     = Inl (DeptosInexistentes [''999''])
   \<and> BALA_DPTOS (rs_store (snd (update_equipo 0 ''B1'' ''10.0.0.1'' 1001 (Some [''005'', ''999'']) False
          \<lparr>rs_store = \<lparr>GRP_VENT = [(''005'', ''Carnes''), (''007'', ''Pan'')], BALA_EQUIPOS = [\<lparr>r_id = 3, r_nombre = ''B1'', r_ip = ''10.0.0.1'', r_puerto = 1001, r_autoreport = False\<rparr>], BALA_DPTOS = [(3, ''007'')]\<rparr>, rs_departamentos = [(''005'', ''Carnes''), (''007'', ''Pan'')], rs_equipos = [\<lparr>e_id = 3, e_nombre = ''B1'', e_ip = ''10.0.0.1'', e_puerto = 1001, e_deptos = [''007''], e_autoreport = False\<rparr>]\<rparr>)))
     = [(3, ''005'')]
   \<and> rs_equipos (snd (update_equipo 0 ''B1'' ''10.0.0.1'' 1001 (Some [''005'', ''999'']) False
          \<lparr>rs_store = \<lparr>GRP_VENT = [(''005'', ''Carnes''), (''007'', ''Pan'')], BALA_EQUIPOS = [\<lparr>r_id = 3, r_nombre = ''B1'', r_ip = ''10.0.0.1'', r_puerto = 1001, r_autoreport = False\<rparr>], BALA_DPTOS = [(3, ''007'')]\<rparr>, rs_departamentos = [(''005'', ''Carnes''), (''007'', ''Pan'')], rs_equipos = [\<lparr>e_id = 3, e_nombre = ''B1'', e_ip = ''10.0.0.1'', e_puerto = 1001, e_deptos = [''007''], e_autoreport = False\<rparr>]\<rparr>))
     = [\<lparr>e_id = 3, e_nombre = ''B1'', e_ip = ''10.0.0.1'', e_puerto = 1001, e_deptos = [''007''], e_autoreport = False\<rparr>]
   \<and> reemplazar_relaciones 3 [''005'', ''999'']
          \<lparr>GRP_VENT = [(''005'', ''Carnes''), (''007'', ''Pan'')], BALA_EQUIPOS = [\<lparr>r_id = 3, r_nombre = ''B1'', r_ip = ''10.0.0.1'', r_puerto = 1001, r_autoreport = False\<rparr>], BALA_DPTOS = [(3, ''007'')]\<rparr>
     = ([''999''], \<lparr>GRP_VENT = [(''005'', ''Carnes''), (''007'', ''Pan'')], BALA_EQUIPOS = [\<lparr>r_id = 3, r_nombre = ''B1'', r_ip = ''10.0.0.1'', r_puerto = 1001, r_autoreport = False\<rparr>], BALA_DPTOS = [(3, ''007'')]\<rparr>\<lparr>BALA_DPTOS := [(3, ''005'')]\<rparr>)
   \<and> reemplazar_relaciones 3 []
          \<lparr>GRP_VENT = [(''005'', ''Carnes''), (''007'', ''Pan'')], BALA_EQUIPOS = [\<lparr>r_id = 3, r_nombre = ''B1'', r_ip = ''10.0.0.1'', r_puerto = 1001, r_autoreport = False\<rparr>], BALA_DPTOS = [(3, ''007'')]\<rparr>
     = ([], \<lparr>GRP_VENT = [(''005'', ''Carnes''), (''007'', ''Pan'')], BALA_EQUIPOS = [\<lparr>r_id = 3, r_nombre = ''B1'', r_ip = ''10.0.0.1'', r_puerto = 1001, r_autoreport = False\<rparr>], BALA_DPTOS = [(3, ''007'')]\<rparr>\<lparr>BALA_DPTOS := []\<rparr>)"
proof -
  let ?s = "\<lparr>GRP_VENT = [(''005'', ''Carnes''), (''007'', ''Pan'')], BALA_EQUIPOS = [\<lparr>r_id = 3, r_nombre = ''B1'', r_ip = ''10.0.0.1'', r_puerto = 1001, r_autoreport = False\<rparr>], BALA_DPTOS = [(3, ''007'')]\<rparr>"
  let ?r = "\<lparr>rs_store = \<lparr>GRP_VENT = [(''005'', ''Carnes''), (''007'', ''Pan'')], BALA_EQUIPOS = [\<lparr>r_id = 3, r_nombre = ''B1'', r_ip = ''10.0.0.1'', r_puerto = 1001, r_autoreport = False\<rparr>], BALA_DPTOS = [(3, ''007'')]\<rparr>, rs_departamentos = [(''005'', ''Carnes''), (''007'', ''Pan'')], rs_equipos = [\<lparr>e_id = 3, e_nombre = ''B1'', e_ip = ''10.0.0.1'', e_puerto = 1001, e_deptos = [''007''], e_autoreport = False\<rparr>]\<rparr>"
  have l: "eq_listar ?s = BALA_EQUIPOS ?s" by (simp add: eq_listar_def)
  have v [simp]: "codigos_validos \<lparr>GRP_VENT = [(''005'', ''Carnes''), (''007'', ''Pan'')], BALA_EQUIPOS = [\<lparr>r_id = 3, r_nombre = ''B1'', r_ip = ''10.0.0.1'', r_puerto = 1001, r_autoreport = False\<rparr>], BALA_DPTOS = []\<rparr> [''005'', ''999''] = [''005'']"
    "codigos_validos \<lparr>GRP_VENT = [(''005'', ''Carnes''), (''007'', ''Pan'')], BALA_EQUIPOS = [\<lparr>r_id = 3, r_nombre = ''B1'', r_ip = ''10.0.0.1'', r_puerto = 1001, r_autoreport = False\<rparr>], BALA_DPTOS = []\<rparr> [] = []"
    by (simp_all add: codigos_validos_def)
  have h: "0 \<le> (0::int) \<and> (0::int) < int (length (eq_listar (rs_store ?r)))" by (simp add: l)
  have a: "fst (update_equipo 0 ''B1'' ''10.0.0.1'' 1001 (Some [''005'', ''999'']) False ?r)
           = Inl (DeptosInexistentes [''999''])"
    using replace_relations_partial_success [of 3 "[]" ?s 0 ?r "''B1''" "''10.0.0.1''" 1001 "Some [''005'', ''999'']" False] h
    by (simp add: or_empty_def)
  have b: "BALA_DPTOS (rs_store (snd (update_equipo 0 ''B1'' ''10.0.0.1'' 1001 (Some [''005'', ''999'']) False ?r)))
           = [(3, ''005'')]"
    by (simp add: eval_store)
  have c: "rs_equipos (snd (update_equipo 0 ''B1'' ''10.0.0.1'' 1001 (Some [''005'', ''999'']) False ?r))
           = [\<lparr>e_id = 3, e_nombre = ''B1'', e_ip = ''10.0.0.1'', e_puerto = 1001, e_deptos = [''007''], e_autoreport = False\<rparr>]"
    by (simp add: eval_store)
  have d: "reemplazar_relaciones 3 [''005'', ''999''] ?s = ([''999''], ?s\<lparr>BALA_DPTOS := [(3, ''005'')]\<rparr>)"
    by (simp add: eval_store)
  have e: "reemplazar_relaciones 3 [] ?s = ([], ?s\<lparr>BALA_DPTOS := []\<rparr>)"
    by (simp add: eval_store)
  show ?thesis using a b c d e by (simp only: simp_thms)
qed


subsection \<open>Deleting a department\<close>

text \<open>The facade refuses on the cached department lists and changes nothing; otherwise it
  issues the delete and refreshes.\<close>

lemma delete_depto_refuses:
  "list_ex (\<lambda>e. codigo \<in> set (e_deptos e)) (rs_equipos r) \<Longrightarrow> delete_depto codigo r = (Inl DeptoEnUso, r)"
  by (simp add: delete_depto_def)

lemma delete_depto_performs:
  assumes "\<not> list_ex (\<lambda>e. codigo \<in> set (e_deptos e)) (rs_equipos r)"
  shows "fst (delete_depto codigo r) = Inr ()"
    and "rs_store (snd (delete_depto codigo r)) = dep_eliminar codigo (rs_store r)"
  using assms by (simp_all add: delete_depto_def rs_store_refresh)

lemma dep_eliminar_unreferenced:
  "codigo \<notin> snd ` set (BALA_DPTOS s) \<Longrightarrow> codigo \<notin> fst ` set (GRP_VENT (dep_eliminar codigo s))"
  by (auto simp: dep_eliminar_def)

text \<open>The JSON repository refuses only on the key \<open>depto_codigo\<close>.\<close>

lemma jr_delete_depto_refuses:
  "list_ex (\<lambda>e. map_of e ''depto_codigo'' = Some (JStr codigo)) (jr_equipos r)
   \<Longrightarrow> jr_delete_depto codigo r = (Inl DeptoEnUso, r)"
  by (simp add: jr_delete_depto_def)

text \<open>
  Claim C8, at a failing input. The JSON repository holds the department \<open>001\<close> and one
  equipment whose list \<open>deptos\<close> is \<open>["001"]\<close>: \<open>delete_depto("001")\<close> returns normally, the
  department is gone from the list and from the file. The facade, whose cache holds the
  same equipment, raises the in-use error and changes nothing.
\<close>

theorem delete_depto_json_ignores_deptos:
  "jr_delete_depto ''001''
     \<lparr>jr_departamentos = [[(''codigo'', JStr ''001''), (''nombre'', JStr ''Panaderia'')]],
      jr_equipos = [[(''nombre'', JStr ''B1''), (''ip'', JStr ''10.0.0.1''), (''puerto'', JNum 1001), (''deptos'', JList [JStr ''001''])]],
      jr_file = Some ([[(''codigo'', JStr ''001''), (''nombre'', JStr ''Panaderia'')]],
                      [[(''nombre'', JStr ''B1''), (''ip'', JStr ''10.0.0.1''), (''puerto'', JNum 1001), (''deptos'', JList [JStr ''001''])]])\<rparr>
   = (Inr (),
      \<lparr>jr_departamentos = [],
       jr_equipos = [[(''nombre'', JStr ''B1''), (''ip'', JStr ''10.0.0.1''), (''puerto'', JNum 1001), (''deptos'', JList [JStr ''001''])]],
       jr_file = Some ([], [[(''nombre'', JStr ''B1''), (''ip'', JStr ''10.0.0.1''), (''puerto'', JNum 1001), (''deptos'', JList [JStr ''001''])]])\<rparr>)
   \<and> delete_depto ''001''
       \<lparr>rs_store = \<lparr>GRP_VENT = [(''001'', ''Panaderia'')],
                    BALA_EQUIPOS = [\<lparr>r_id = 1, r_nombre = ''B1'', r_ip = ''10.0.0.1'', r_puerto = 1001, r_autoreport = False\<rparr>],
                    BALA_DPTOS = [(1, ''001'')]\<rparr>,
        rs_departamentos = [(''001'', ''Panaderia'')],
        rs_equipos = [\<lparr>e_id = 1, e_nombre = ''B1'', e_ip = ''10.0.0.1'', e_puerto = 1001, e_deptos = [''001''], e_autoreport = False\<rparr>]\<rparr>
     = (Inl DeptoEnUso,
       \<lparr>rs_store = \<lparr>GRP_VENT = [(''001'', ''Panaderia'')],
                    BALA_EQUIPOS = [\<lparr>r_id = 1, r_nombre = ''B1'', r_ip = ''10.0.0.1'', r_puerto = 1001, r_autoreport = False\<rparr>],
                    BALA_DPTOS = [(1, ''001'')]\<rparr>,
        rs_departamentos = [(''001'', ''Panaderia'')],
        rs_equipos = [\<lparr>e_id = 1, e_nombre = ''B1'', e_ip = ''10.0.0.1'', e_puerto = 1001, e_deptos = [''001''], e_autoreport = False\<rparr>]\<rparr>)"
  by (simp add: jr_delete_depto_def jr_save_def delete_depto_def)


subsection \<open>The retry loop of send_many\<close>

lemma send_retry_spec:
  assumes "\<forall>k. dev k f \<noteq> None"
  shows "\<exists>j resp. send_retry dev mr f i n = (Some resp, Suc (n + j))
           \<and> dev (n + j) f = Some resp
           \<and> (\<forall>k<j. \<exists>b. dev (n + k) f = Some b \<and> \<not> valid_resp b)
           \<and> (valid_resp resp \<or> i + int j + 1 > mr)
           \<and> (j = 0 \<or> i + int j \<le> mr)"
  using assms
proof (induction dev mr f i n rule: send_retry.induct)
  case (1 dev mr f i n)
  have "dev n f \<noteq> None" using "1.prems" by (rule spec)
  then obtain resp where r: "dev n f = Some resp" by (cases "dev n f") simp_all
  show ?case
  proof (cases "valid_resp resp \<or> i + 1 > mr")
    case True
    have "send_retry dev mr f i n
          = (if valid_resp resp then (Some resp, Suc n)
             else if i + 1 > mr then (Some resp, Suc n)
             else send_retry dev mr f (i + 1) (Suc n))"
      by (subst send_retry.simps) (simp only: r option.case)
    also have "\<dots> = (Some resp, Suc n)" using True by (cases "valid_resp resp") simp_all
    finally have "send_retry dev mr f i n = (Some resp, Suc (n + 0))" by simp
    have "dev (n + 0) f = Some resp" using r by simp
    moreover have "valid_resp resp \<or> i + int 0 + 1 > mr" using True by simp
    ultimately show ?thesis using \<open>send_retry dev mr f i n = (Some resp, Suc (n + 0))\<close>
      by (intro exI [of _ 0] exI [of _ resp]) simp
  next
    case False
    then have nv: "\<not> valid_resp resp" and le: "\<not> i + 1 > mr" by simp_all
    have step: "send_retry dev mr f i n = send_retry dev mr f (i + 1) (Suc n)"
      using nv le by (subst send_retry.simps) (simp add: r)
    obtain j resp' where
      s: "send_retry dev mr f (i + 1) (Suc n) = (Some resp', Suc (Suc n + j))"
      and d: "dev (Suc n + j) f = Some resp'"
      and e: "\<forall>k<j. \<exists>b. dev (Suc n + k) f = Some b \<and> \<not> valid_resp b"
      and v: "valid_resp resp' \<or> i + 1 + int j + 1 > mr"
      and b: "j = 0 \<or> i + 1 + int j \<le> mr"
      using "1.IH" [OF r nv le "1.prems"] by blast
    have e': "\<forall>k<Suc j. \<exists>b. dev (n + k) f = Some b \<and> \<not> valid_resp b"
    proof (intro allI impI)
      fix k assume k: "k < Suc j"
      show "\<exists>b. dev (n + k) f = Some b \<and> \<not> valid_resp b"
      proof (cases k)
        case 0
        then show ?thesis using r nv by simp
      next
        case (Suc k')
        then have "k' < j" using k by simp
        then show ?thesis using e Suc by simp
      qed
    qed
    have "send_retry dev mr f i n = (Some resp', Suc (n + Suc j))" using step s by simp
    moreover have "dev (n + Suc j) f = Some resp'" using d by simp
    moreover have "valid_resp resp' \<or> i + int (Suc j) + 1 > mr" using v by simp
    moreover have "Suc j = 0 \<or> i + int (Suc j) \<le> mr" using b le by auto
    ultimately show ?thesis using e' by (intro exI [of _ "Suc j"] exI [of _ resp']) blast
  qed
qed

lemma send_frames_spec:
  assumes "\<forall>k f. dev k f \<noteq> None"
  shows "\<exists>rs ns. send_frames dev mr fs n acc = Some (acc @ rs)
           \<and> length rs = length fs \<and> length ns = Suc (length fs) \<and> ns ! 0 = n
           \<and> (\<forall>i<length fs.
                 ns ! i < ns ! Suc i
               \<and> dev (ns ! Suc i - 1) (fs ! i) = Some (rs ! i)
               \<and> (\<forall>k. ns ! i \<le> k \<and> k < ns ! Suc i - 1 \<longrightarrow> (\<exists>b. dev k (fs ! i) = Some b \<and> \<not> valid_resp b))
               \<and> (valid_resp (rs ! i) \<or> mr < int (ns ! Suc i - ns ! i))
               \<and> (ns ! Suc i - ns ! i = 1 \<or> int (ns ! Suc i - ns ! i) \<le> mr + 1))"
proof (induction fs arbitrary: n acc)
  case Nil
  show ?case by (intro exI [of _ "[]"] exI [of _ "[n]"]) simp
next
  case (Cons f fs)
  have "\<forall>k. dev k f \<noteq> None" using assms by simp
  then obtain j resp where
    s: "send_retry dev mr f 0 n = (Some resp, Suc (n + j))"
    and d: "dev (n + j) f = Some resp"
    and e: "\<forall>k<j. \<exists>b. dev (n + k) f = Some b \<and> \<not> valid_resp b"
    and v: "valid_resp resp \<or> 0 + int j + 1 > mr"
    and b: "j = 0 \<or> 0 + int j \<le> mr"
    using send_retry_spec [of dev f mr 0 n] by blast
  obtain rs ns where
    r: "send_frames dev mr fs (Suc (n + j)) (acc @ [resp]) = Some ((acc @ [resp]) @ rs)"
    and lr: "length rs = length fs" and ln: "length ns = Suc (length fs)"
    and n0: "ns ! 0 = Suc (n + j)"
    and fr: "\<forall>i<length fs.
                 ns ! i < ns ! Suc i
               \<and> dev (ns ! Suc i - 1) (fs ! i) = Some (rs ! i)
               \<and> (\<forall>k. ns ! i \<le> k \<and> k < ns ! Suc i - 1 \<longrightarrow> (\<exists>b. dev k (fs ! i) = Some b \<and> \<not> valid_resp b))
               \<and> (valid_resp (rs ! i) \<or> mr < int (ns ! Suc i - ns ! i))
               \<and> (ns ! Suc i - ns ! i = 1 \<or> int (ns ! Suc i - ns ! i) \<le> mr + 1)"
    using Cons.IH [of "Suc (n + j)" "acc @ [resp]"] by blast
  let ?rs = "resp # rs" and ?ns = "n # ns"
  have 1: "send_frames dev mr (f # fs) n acc = Some (acc @ ?rs)" using s r by simp
  have 2: "length ?rs = length (f # fs)" "length ?ns = Suc (length (f # fs))" "?ns ! 0 = n"
    using lr ln by simp_all
  have first: "\<forall>k. n \<le> k \<and> k < Suc (n + j) - 1 \<longrightarrow> (\<exists>b. dev k f = Some b \<and> \<not> valid_resp b)"
  proof (intro allI impI)
    fix k assume k: "n \<le> k \<and> k < Suc (n + j) - 1"
    then have "k - n < j" and "n + (k - n) = k" by arith+
    then show "\<exists>b. dev k f = Some b \<and> \<not> valid_resp b" using e by metis
  qed
  have 3: "\<forall>i<length (f # fs).
                 ?ns ! i < ?ns ! Suc i
               \<and> dev (?ns ! Suc i - 1) ((f # fs) ! i) = Some (?rs ! i)
               \<and> (\<forall>k. ?ns ! i \<le> k \<and> k < ?ns ! Suc i - 1 \<longrightarrow> (\<exists>b. dev k ((f # fs) ! i) = Some b \<and> \<not> valid_resp b))
               \<and> (valid_resp (?rs ! i) \<or> mr < int (?ns ! Suc i - ?ns ! i))
               \<and> (?ns ! Suc i - ?ns ! i = 1 \<or> int (?ns ! Suc i - ?ns ! i) \<le> mr + 1)"
  proof (intro allI impI)
    fix i assume i: "i < length (f # fs)"
    show "?ns ! i < ?ns ! Suc i
               \<and> dev (?ns ! Suc i - 1) ((f # fs) ! i) = Some (?rs ! i)
               \<and> (\<forall>k. ?ns ! i \<le> k \<and> k < ?ns ! Suc i - 1 \<longrightarrow> (\<exists>b. dev k ((f # fs) ! i) = Some b \<and> \<not> valid_resp b))
               \<and> (valid_resp (?rs ! i) \<or> mr < int (?ns ! Suc i - ?ns ! i))
               \<and> (?ns ! Suc i - ?ns ! i = 1 \<or> int (?ns ! Suc i - ?ns ! i) \<le> mr + 1)"
    proof (cases i)
      case 0
      have "valid_resp resp \<or> mr < int (Suc (n + j) - n)" using v by auto
      moreover have "Suc (n + j) - n = 1 \<or> int (Suc (n + j) - n) \<le> mr + 1" using b by auto
      ultimately show ?thesis using 0 n0 d first by simp
    next
      case (Suc i')
      then have "i' < length fs" using i by simp
      then show ?thesis using fr Suc by simp
    qed
  qed
  show ?case using 1 2 3 by (intro exI [of _ ?rs] exI [of _ ?ns]) (simp only: simp_thms)
qed


subsection \<open>One response per frame\<close>

lemma send_many_spec:
  assumes "\<forall>k f. dev k f \<noteq> None"
  shows "\<exists>resps ns. send_many dev True frames mr = Some resps
           \<and> length resps = length frames \<and> length ns = Suc (length frames) \<and> ns ! 0 = 0
           \<and> (\<forall>i<length frames.
                 ns ! i < ns ! Suc i
               \<and> dev (ns ! Suc i - 1) (frames ! i) = Some (resps ! i)
               \<and> (\<forall>k. ns ! i \<le> k \<and> k < ns ! Suc i - 1 \<longrightarrow> (\<exists>b. dev k (frames ! i) = Some b \<and> \<not> valid_resp b))
               \<and> (valid_resp (resps ! i) \<or> mr < int (ns ! Suc i - ns ! i))
               \<and> (ns ! Suc i - ns ! i = 1 \<or> int (ns ! Suc i - ns ! i) \<le> mr + 1))"
  using send_frames_spec [OF assms, of mr frames 0 "[]"] by (simp add: send_many_def)

lemma pair_by_index:
  assumes "length resps = length cods"
  shows "map (\<lambda>idx. (cods ! idx, resp_ok (if idx < length resps then resps ! idx else []))) [0..<length cods]
         = map (\<lambda>(c, resp). (c, resp_ok resp)) (zip cods resps)"
  using assms by (intro nth_equalityI) simp_all

lemma enviar_departamentos_pairs:
  assumes "send_many dev conn (map (\<lambda>(c_raw, c3). frame_of c_raw c3) (zip orig (map (\<lambda>c. rjust 3 (CHR ''0'') (last_n 3 c)) orig))) mr = Some resps"
    and "length resps = length orig"
  shows "enviar_departamentos_equipo dev conn frame_of mr orig
         = Some (map (\<lambda>(c, resp). (c, resp_ok resp)) (zip (map (\<lambda>c. rjust 3 (CHR ''0'') (last_n 3 c)) orig) resps))"
proof -
  let ?cods = "map (\<lambda>c. rjust 3 (CHR ''0'') (last_n 3 c)) orig"
  have l: "length resps = length ?cods" using assms(2) by simp
  show ?thesis
    unfolding enviar_departamentos_equipo_def Let_def
    by (simp only: assms(1) option.case pair_by_index [OF l])
qed

text \<open>
  Claim C10. When the connection opens and the socket never raises, \<open>send_many\<close> returns
  a list with exactly one entry per frame, in the order of the frames. The frames put
  on the socket are numbered from 0; those numbered \<open>ns ! i\<close> up to \<open>ns ! (i + 1) - 1\<close> all
  carry frame \<open>i\<close>, at least one does, and entry \<open>i\<close> is what the device returned to the last
  of them. Every earlier one of them was answered with an invalid response (possibly no
  byte at all), so a valid response is recorded the first time one arrives; and entry
  \<open>i\<close> is either valid or was the answer to more than \<open>max_retries\<close> sends of that frame,
  no frame being sent more than \<open>max_retries + 1\<close> times (once when that is less than
  one). \<open>enviar_departamentos\<close> therefore reports for the \<open>i\<close>-th department code the
  verdict on the \<open>i\<close>-th entry, and its fallback for a missing entry is never taken.
\<close>

theorem send_many_one_response_per_frame:
  assumes "\<forall>k f. dev k f \<noteq> None"
  shows "(\<exists>resps ns. send_many dev True frames mr = Some resps
           \<and> length resps = length frames \<and> length ns = Suc (length frames) \<and> ns ! 0 = 0
           \<and> (\<forall>i<length frames.
                 ns ! i < ns ! Suc i
               \<and> dev (ns ! Suc i - 1) (frames ! i) = Some (resps ! i)
               \<and> (\<forall>k. ns ! i \<le> k \<and> k < ns ! Suc i - 1 \<longrightarrow> (\<exists>b. dev k (frames ! i) = Some b \<and> \<not> valid_resp b))
               \<and> (valid_resp (resps ! i) \<or> mr < int (ns ! Suc i - ns ! i))
               \<and> (ns ! Suc i - ns ! i = 1 \<or> int (ns ! Suc i - ns ! i) \<le> mr + 1)))
       \<and> (\<exists>resps. send_many dev True (map (\<lambda>(c_raw, c3). frame_of c_raw c3) (zip orig (map (\<lambda>c. rjust 3 (CHR ''0'') (last_n 3 c)) orig))) mr = Some resps
             \<and> length resps = length orig
             \<and> enviar_departamentos_equipo dev True frame_of mr orig
               = Some (map (\<lambda>(c, resp). (c, resp_ok resp)) (zip (map (\<lambda>c. rjust 3 (CHR ''0'') (last_n 3 c)) orig) resps)))"
proof (rule conjI)
  show "\<exists>resps ns. send_many dev True frames mr = Some resps
           \<and> length resps = length frames \<and> length ns = Suc (length frames) \<and> ns ! 0 = 0
           \<and> (\<forall>i<length frames.
                 ns ! i < ns ! Suc i
               \<and> dev (ns ! Suc i - 1) (frames ! i) = Some (resps ! i)
               \<and> (\<forall>k. ns ! i \<le> k \<and> k < ns ! Suc i - 1 \<longrightarrow> (\<exists>b. dev k (frames ! i) = Some b \<and> \<not> valid_resp b))
               \<and> (valid_resp (resps ! i) \<or> mr < int (ns ! Suc i - ns ! i))
               \<and> (ns ! Suc i - ns ! i = 1 \<or> int (ns ! Suc i - ns ! i) \<le> mr + 1))"
    by (rule send_many_spec [OF assms])
next
  let ?frames = "map (\<lambda>(c_raw, c3). frame_of c_raw c3) (zip orig (map (\<lambda>c. rjust 3 (CHR ''0'') (last_n 3 c)) orig))"
  obtain resps where s: "send_many dev True ?frames mr = Some resps" and l: "length resps = length ?frames"
    using send_many_spec [OF assms, of ?frames mr] by blast
  have l': "length resps = length orig" using l by simp
  show "\<exists>resps. send_many dev True ?frames mr = Some resps
             \<and> length resps = length orig
             \<and> enviar_departamentos_equipo dev True frame_of mr orig
               = Some (map (\<lambda>(c, resp). (c, resp_ok resp)) (zip (map (\<lambda>c. rjust 3 (CHR ''0'') (last_n 3 c)) orig) resps))"
    using s l' enviar_departamentos_pairs [OF s l'] by blast
qed

theorem send_many_one_response_per_frame_witness:
  "send_many (curry (Some \<circ> (case_option [] id \<circ> map_of [((2, [2, 66, 4]), [7, 48, 49, 4])]))) True [[2, 65, 4], [2, 66, 4]] 1 = Some [[], [7, 48, 49, 4]]
   \<and> enviar_departamentos_equipo (curry (Some \<circ> (case_option [] id \<circ> map_of [((2, [2, 66, 4]), [7, 48, 49, 4])]))) True (curry (case_option [2, 65, 4] id \<circ> map_of [((''12'', ''012''), [2, 66, 4])])) 1 [''5'', ''12'']
     = Some [(''005'', False), (''012'', True)]"
proof -
  let ?dev = "(curry (Some \<circ> (case_option [] id \<circ> map_of [((2, [2, 66, 4]), [7, 48, 49, 4])]))) :: device"
  let ?fo = "(curry (case_option [2, 65, 4] id \<circ> map_of [((''12'', ''012''), [2, 66, 4])]))"
  have h: "\<forall>k f. ?dev k f \<noteq> None" by simp
  have c: "map (\<lambda>c. rjust 3 (CHR ''0'') (last_n 3 c)) [''5'', ''12''] = [''005'', ''012'']"
    by (simp add: rjust_def last_n_def replicate_num)
  have fr: "map (\<lambda>(c_raw, c3). ?fo c_raw c3) (zip [''5'', ''12''] [''005'', ''012'']) = [[2, 65, 4], [2, 66, 4]]"
    by simp
  have e: "send_many ?dev True [[2, 65, 4], [2, 66, 4]] 1 = Some [[], [7, 48, 49, 4]]"
    by (simp add: send_many_def send_retry.simps valid_resp_def RESP_STX_def ETX_def)
  obtain resps where
    s: "send_many ?dev True (map (\<lambda>(c_raw, c3). ?fo c_raw c3) (zip [''5'', ''12''] (map (\<lambda>c. rjust 3 (CHR ''0'') (last_n 3 c)) [''5'', ''12'']))) 1 = Some resps"
    and d: "enviar_departamentos_equipo ?dev True ?fo 1 [''5'', ''12'']
            = Some (map (\<lambda>(c, resp). (c, resp_ok resp)) (zip (map (\<lambda>c. rjust 3 (CHR ''0'') (last_n 3 c)) [''5'', ''12'']) resps))"
    using send_many_one_response_per_frame [OF h, of "[]" 1 ?fo "[''5'', ''12'']"] by blast
  have "resps = [[], [7, 48, 49, 4]]" using s e by (simp only: c fr) simp
  then have "enviar_departamentos_equipo ?dev True ?fo 1 [''5'', ''12''] = Some [(''005'', False), (''012'', True)]"
    using d by (simp only: c) (simp add: resp_ok_def RESP_STX_def ETX_def)
  then show ?thesis using e by (simp only: simp_thms)
qed


subsection \<open>Modification time of INFO.JDG\<close>










end
